theory Spec2Isabelle
  imports Main "HOL-Library.Word" "HOL-Library.Signed_Division"
begin

unbundle bit_operations_syntax

section \<open>The cookie subsystem of wg\_cookie.c\<close>

text \<open>
  A shallow embedding of \<^verbatim>\<open>src/src/wg_cookie.c\<close> and \<^verbatim>\<open>wg_cookie.h\<close>.

  \<^item> A buffer \<^verbatim>\<open>(ptr, len)\<close> is a list of bytes; \<^verbatim>\<open>memcpy(dst, src, n)\<close> stores
    \<open>take n src\<close> and \<^verbatim>\<open>bcmp(a, b, n)\<close> compares \<open>take n a\<close> with \<open>take n b\<close>.
  \<^item> \<^verbatim>\<open>sbintime_t\<close> is a signed and \<^verbatim>\<open>uint64_t\<close> an unsigned 64-bit integer: both are
    \<open>64 word\<close>; \<open>+\<close>, \<open>-\<close> and \<open>*\<close> wrap, \<open>\<le>\<close> and \<open><\<close> compare unsigned, \<open><s\<close> compares
    signed, \<open>sint\<close> and \<open>unat\<close> read the value.
  \<^item> What the kernel hands to a call is an argument of the model: the value each
    \<^verbatim>\<open>getsbinuptime()\<close> returns, whether \<^verbatim>\<open>uma_zalloc\<close> succeeds, the bytes
    \<^verbatim>\<open>arc4random_buf\<close> writes.
  \<^item> The primitives whose code is outside the repository (BLAKE2s, SipHash,
    XChaCha20-Poly1305, \<^verbatim>\<open>nstosbt\<close>) are arguments as well: a theorem with a variable
    in their place holds for any function, of \<^verbatim>\<open>nstosbt\<close> at most \<open>nstosbt 0 = 0\<close> is
    assumed.
  \<^item> A C function returning \<^verbatim>\<open>0\<close> or an errno returns \<open>error + unit\<close>.
  \<^item> The file is modelled with \<^verbatim>\<open>INET6\<close> defined.
\<close>

subsection \<open>Types and constants\<close>

type_synonym bytes = "8 word list"
type_synonym sbintime_t = "64 word"
type_synonym uint64_t = "64 word"
type_synonym sa_family_t = "8 word"

datatype error = ETIMEDOUT | EINVAL | EAGAIN | ECONNREFUSED | EAFNOSUPPORT | ENOBUFS

text \<open>\<^verbatim>\<open>AF_INET\<close> and \<^verbatim>\<open>AF_INET6\<close> come from FreeBSD's \<^verbatim>\<open>sys/socket.h\<close>.\<close>

definition AF_INET :: sa_family_t where
  "AF_INET = 2"

definition AF_INET6 :: sa_family_t where
  "AF_INET6 = 28"

text \<open>
  \<^verbatim>\<open>SBT_1S\<close> comes from FreeBSD's \<^verbatim>\<open>sys/time.h\<close>: \<^verbatim>\<open>((sbintime_t)1 << 32)\<close>, one second
  of the 32.32 fixed-point uptime.
\<close>

definition SBT_1S :: sbintime_t where
  "SBT_1S = push_bit 32 1"

text \<open>Division of two \<^verbatim>\<open>int64_t\<close> values: C truncates towards zero.\<close>

definition sdiv64 :: "64 word \<Rightarrow> 64 word \<Rightarrow> 64 word" where
  "sdiv64 a b = word_of_int (sint a sdiv sint b)"

definition COOKIE_MAC_SIZE :: nat where
  "COOKIE_MAC_SIZE = 16"

definition COOKIE_KEY_SIZE :: nat where
  "COOKIE_KEY_SIZE = 32"

definition COOKIE_COOKIE_SIZE :: nat where
  "COOKIE_COOKIE_SIZE = 16"

definition COOKIE_SECRET_SIZE :: nat where
  "COOKIE_SECRET_SIZE = 32"

definition COOKIE_ENCRYPTED_SIZE :: nat where
  "COOKIE_ENCRYPTED_SIZE = COOKIE_COOKIE_SIZE + COOKIE_MAC_SIZE"

definition COOKIE_SECRET_MAX_AGE :: "32 word" where
  "COOKIE_SECRET_MAX_AGE = 120"

definition COOKIE_SECRET_LATENCY :: "32 word" where
  "COOKIE_SECRET_LATENCY = 5"

definition RATELIMIT_SIZE :: "64 word" where
  "RATELIMIT_SIZE = push_bit 13 1"

definition RATELIMIT_SIZE_MAX :: "64 word" where
  "RATELIMIT_SIZE_MAX = RATELIMIT_SIZE * 8"

definition INITIATIONS_PER_SECOND :: "64 word" where
  "INITIATIONS_PER_SECOND = 20"

definition INITIATIONS_BURSTABLE :: "64 word" where
  "INITIATIONS_BURSTABLE = 5"

definition INITIATION_COST :: "64 word" where
  "INITIATION_COST = sdiv64 SBT_1S INITIATIONS_PER_SECOND"

definition TOKEN_MAX :: "64 word" where
  "TOKEN_MAX = INITIATION_COST * INITIATIONS_BURSTABLE"

definition IPV4_MASK_SIZE :: nat where
  "IPV4_MASK_SIZE = 4"

definition IPV6_MASK_SIZE :: nat where
  "IPV6_MASK_SIZE = 8"

subsection \<open>Socket addresses\<close>

text \<open>
  A \<^verbatim>\<open>struct sockaddr\<close> is read through \<^verbatim>\<open>satosin\<close> when its family is \<^verbatim>\<open>AF_INET\<close>
  and through \<^verbatim>\<open>satosin6\<close> when it is \<^verbatim>\<open>AF_INET6\<close>; the record has the fields of both
  views.
\<close>

record sockaddr =
  sa_family :: sa_family_t
  sin_addr :: bytes
  sin_port :: bytes
  sin6_addr :: bytes
  sin6_port :: bytes

definition bcmp :: "bytes \<Rightarrow> bytes \<Rightarrow> nat \<Rightarrow> int" where
  "bcmp b1 b2 len = (if take len b1 = take len b2 then 0 else 1)"

definition memcpy :: "bytes \<Rightarrow> nat \<Rightarrow> bytes" where
  "memcpy src len = take len src"

subsection \<open>The rate limiter\<close>

text \<open>
  \<open>r_u\<close> is the anonymous union of \<^verbatim>\<open>r_in\<close> and \<^verbatim>\<open>r_in6\<close>: the bytes that were copied
  into it. \<open>rl_gc\<close> is the callout: whether a collection is pending. \<open>rl_table\<close> maps a
  bucket index to the bucket's list, head first.
\<close>

record ratelimit_entry =
  r_af :: sa_family_t
  r_u :: bytes
  r_last_time :: sbintime_t
  r_tokens :: uint64_t

record ratelimit =
  rl_secret :: bytes
  rl_gc :: bool
  rl_table :: "64 word \<Rightarrow> ratelimit_entry list"
  rl_table_mask :: "64 word"
  rl_table_num :: "64 word"

definition ratelimit_gc_schedule :: "ratelimit \<Rightarrow> ratelimit" where
  "ratelimit_gc_schedule rl =
     (if 0 < rl_table_num rl \<and> \<not> rl_gc rl then rl\<lparr>rl_gc := True\<rparr> else rl)"

text \<open>
  The three \<^verbatim>\<open>continue\<close> tests at the head of the body of \<^verbatim>\<open>LIST_FOREACH\<close>: the entry
  is the one of the endpoint when none of them fires.
\<close>

definition entry_matches :: "sockaddr \<Rightarrow> ratelimit_entry \<Rightarrow> bool" where
  "entry_matches sa r =
     (if r_af r \<noteq> sa_family sa then False
      else if r_af r = AF_INET \<and> bcmp (r_u r) (sin_addr sa) IPV4_MASK_SIZE \<noteq> 0 then False
      else if r_af r = AF_INET6 \<and> bcmp (r_u r) (sin6_addr sa) IPV6_MASK_SIZE \<noteq> 0 then False
      else True)"

text \<open>
  The token bucket, lines 440 to 455: the body of the loop once the entry is found.
  \<open>diff\<close> is a signed difference, added to the unsigned \<open>r_tokens\<close>; both comparisons
  are unsigned, since \<open>tokens\<close> is a \<^verbatim>\<open>uint64_t\<close>.
\<close>

definition token_bucket :: "sbintime_t \<Rightarrow> ratelimit_entry \<Rightarrow> (error + unit) \<times> ratelimit_entry" where
  "token_bucket now r =
     (let diff = now - r_last_time r;
          r = r\<lparr>r_last_time := now\<rparr>;
          tokens = r_tokens r + diff;
          tokens = (if tokens > TOKEN_MAX then TOKEN_MAX else tokens)
      in if tokens \<ge> INITIATION_COST
         then (Inr (), r\<lparr>r_tokens := tokens - INITIATION_COST\<rparr>)
         else (Inl ECONNREFUSED, r\<lparr>r_tokens := tokens\<rparr>))"

text \<open>
  \<^verbatim>\<open>LIST_FOREACH\<close> over one bucket: \<open>None\<close> when the loop ends without finding the
  entry, otherwise the verdict and the bucket with the entry updated in place.
\<close>

fun ratelimit_scan ::
  "sbintime_t \<Rightarrow> sockaddr \<Rightarrow> ratelimit_entry list \<Rightarrow> ((error + unit) \<times> ratelimit_entry list) option" where
  "ratelimit_scan now sa [] = None"
| "ratelimit_scan now sa (r # rs) =
     (if \<not> entry_matches sa r
      then (case ratelimit_scan now sa rs of
              None \<Rightarrow> None
            | Some (ret, rs') \<Rightarrow> Some (ret, r # rs'))
      else (case token_bucket now r of (ret, r') \<Rightarrow> Some (ret, r' # rs)))"

text \<open>The SipHash key of the address, and the bucket it selects.\<close>

definition ratelimit_key :: "(bytes \<Rightarrow> bytes \<Rightarrow> 64 word) \<Rightarrow> ratelimit \<Rightarrow> sockaddr \<Rightarrow> 64 word" where
  "ratelimit_key siphash13 rl sa =
     (if sa_family sa = AF_INET
      then siphash13 (rl_secret rl) (take IPV4_MASK_SIZE (sin_addr sa))
      else siphash13 (rl_secret rl) (take IPV6_MASK_SIZE (sin6_addr sa)))"

definition ratelimit_bucket :: "(bytes \<Rightarrow> bytes \<Rightarrow> 64 word) \<Rightarrow> ratelimit \<Rightarrow> sockaddr \<Rightarrow> 64 word" where
  "ratelimit_bucket siphash13 rl sa = ratelimit_key siphash13 rl sa AND rl_table_mask rl"

text \<open>The entry that lines 467 to 480 allocate and fill.\<close>

definition new_entry :: "sbintime_t \<Rightarrow> sockaddr \<Rightarrow> ratelimit_entry" where
  "new_entry now sa =
     \<lparr>r_af = sa_family sa,
      r_u = (if sa_family sa = AF_INET then memcpy (sin_addr sa) IPV4_MASK_SIZE
             else memcpy (sin6_addr sa) IPV6_MASK_SIZE),
      r_last_time = now,
      r_tokens = TOKEN_MAX - INITIATION_COST\<rparr>"

text \<open>
  \<^verbatim>\<open>ratelimit_allow\<close>. \<open>now\<close> is what \<^verbatim>\<open>getsbinuptime()\<close> returns (it is read once, on
  either path), \<open>zalloc_ok\<close> whether \<^verbatim>\<open>uma_zalloc\<close> returns an entry.
\<close>

definition ratelimit_allow ::
  "(bytes \<Rightarrow> bytes \<Rightarrow> 64 word) \<Rightarrow> sbintime_t \<Rightarrow> bool \<Rightarrow> ratelimit \<Rightarrow> sockaddr
     \<Rightarrow> (error + unit) \<times> ratelimit" where
  "ratelimit_allow siphash13 now zalloc_ok rl sa =
     (if sa_family sa \<noteq> AF_INET \<and> sa_family sa \<noteq> AF_INET6 then (Inl ECONNREFUSED, rl)
      else
        let b = ratelimit_bucket siphash13 rl sa in
        case ratelimit_scan now sa (rl_table rl b) of
          Some (ret, rs') \<Rightarrow> (ret, rl\<lparr>rl_table := (rl_table rl)(b := rs')\<rparr>)
        | None \<Rightarrow>
            if rl_table_num rl \<ge> RATELIMIT_SIZE_MAX then (Inl ECONNREFUSED, rl)
            else if \<not> zalloc_ok then (Inl ECONNREFUSED, rl)
            else
              let rl = rl\<lparr>rl_table_num := rl_table_num rl + 1\<rparr>;
                  rl = rl\<lparr>rl_table := (rl_table rl)(b := new_entry now sa # rl_table rl b)\<rparr>
              in (Inr (), ratelimit_gc_schedule rl))"

text \<open>A sequence of calls, each with its clock reading and allocator answer.\<close>

fun ratelimit_allow_seq ::
  "(bytes \<Rightarrow> bytes \<Rightarrow> 64 word) \<Rightarrow> (sbintime_t \<times> bool \<times> sockaddr) list \<Rightarrow> ratelimit
     \<Rightarrow> (error + unit) list \<times> ratelimit" where
  "ratelimit_allow_seq siphash13 [] rl = ([], rl)"
| "ratelimit_allow_seq siphash13 ((now, zalloc_ok, sa) # cs) rl =
     (case ratelimit_allow siphash13 now zalloc_ok rl sa of
        (ret, rl') \<Rightarrow>
          (case ratelimit_allow_seq siphash13 cs rl' of (rets, rl'') \<Rightarrow> (ret # rets, rl'')))"

subsection \<open>BLAKE2s, MACs and the expiry test\<close>

text \<open>
  BLAKE2s itself is outside the repository: \<open>blake2s outlen key msg\<close> stands for the
  digest of \<open>msg\<close> under \<open>key\<close>, and the state of the incremental interface records what
  \<^verbatim>\<open>blake2s_init_key\<close> and \<^verbatim>\<open>blake2s_update\<close> were given.
\<close>

type_synonym blake2s_fn = "nat \<Rightarrow> bytes \<Rightarrow> bytes \<Rightarrow> bytes"

record blake2s_state =
  bs_outlen :: nat
  bs_key :: bytes
  bs_msg :: bytes

definition blake2s_init_key :: "nat \<Rightarrow> bytes \<Rightarrow> nat \<Rightarrow> blake2s_state" where
  "blake2s_init_key outlen key keylen = \<lparr>bs_outlen = outlen, bs_key = take keylen key, bs_msg = []\<rparr>"

definition blake2s_update :: "blake2s_state \<Rightarrow> bytes \<Rightarrow> nat \<Rightarrow> blake2s_state" where
  "blake2s_update state inp inlen = state\<lparr>bs_msg := bs_msg state @ take inlen inp\<rparr>"

definition blake2s_final :: "blake2s_fn \<Rightarrow> blake2s_state \<Rightarrow> bytes" where
  "blake2s_final blake2s state = blake2s (bs_outlen state) (bs_key state) (bs_msg state)"

record cookie_macs =
  mac1 :: bytes
  mac2 :: bytes

definition cookie_macs_mac1 :: "blake2s_fn \<Rightarrow> cookie_macs \<Rightarrow> bytes \<Rightarrow> bytes \<Rightarrow> cookie_macs" where
  "cookie_macs_mac1 blake2s cm buf key =
     (let state = blake2s_init_key COOKIE_MAC_SIZE key COOKIE_KEY_SIZE;
          state = blake2s_update state buf (length buf)
      in cm\<lparr>mac1 := blake2s_final blake2s state\<rparr>)"

definition cookie_macs_mac2 :: "blake2s_fn \<Rightarrow> cookie_macs \<Rightarrow> bytes \<Rightarrow> bytes \<Rightarrow> cookie_macs" where
  "cookie_macs_mac2 blake2s cm buf key =
     (let state = blake2s_init_key COOKIE_MAC_SIZE key COOKIE_COOKIE_SIZE;
          state = blake2s_update state buf (length buf);
          state = blake2s_update state (mac1 cm) COOKIE_MAC_SIZE
      in cm\<lparr>mac2 := blake2s_final blake2s state\<rparr>)"

definition timingsafe_bcmp :: "bytes \<Rightarrow> bytes \<Rightarrow> nat \<Rightarrow> int" where
  "timingsafe_bcmp b1 b2 n = (if take n b1 = take n b2 then 0 else 1)"

definition bzero :: "nat \<Rightarrow> bytes" where
  "bzero len = replicate len 0"

text \<open>
  \<^verbatim>\<open>cookie_timer_expired\<close>: \<open>now\<close> is the reading of \<^verbatim>\<open>getsbinuptime()\<close>. \<open>sec\<close> and
  \<open>nsec\<close> are \<^verbatim>\<open>uint32_t\<close>, widened to 64 bits; the comparison is signed. \<open>nstosbt\<close> comes
  from \<^verbatim>\<open>sys/time.h\<close> and is an argument.
\<close>

definition cookie_timer_expired ::
  "(64 word \<Rightarrow> sbintime_t) \<Rightarrow> sbintime_t \<Rightarrow> sbintime_t \<Rightarrow> 32 word \<Rightarrow> 32 word \<Rightarrow> error + unit" where
  "cookie_timer_expired nstosbt now timer sec nsec =
     (if (timer + ucast sec * SBT_1S + nstosbt (ucast nsec)) <s now then Inl ETIMEDOUT else Inr ())"

subsection \<open>Reader-writer locks\<close>

text \<open>
  Modelled from the spec: the reader-writer lock behind \<^verbatim>\<open>rw_rlock\<close>, \<^verbatim>\<open>rw_runlock\<close>,
  \<^verbatim>\<open>rw_wlock\<close> and \<^verbatim>\<open>rw_wunlock\<close> (rwlock(9), outside the repository). The state of a
  \<^verbatim>\<open>struct rwlock\<close> is free, held shared by \<open>n + 1\<close> readers (\<open>Rlocked n\<close>), or held
  exclusively. A call that has to sleep until another thread releases the lock, and a
  release of a lock that is not held in that mode, return \<open>None\<close>.
\<close>

datatype rwlock = Unlocked | Rlocked nat | Wlocked

fun rw_rlock :: "rwlock \<Rightarrow> rwlock option" where
  "rw_rlock Unlocked = Some (Rlocked 0)"
| "rw_rlock (Rlocked n) = Some (Rlocked (Suc n))"
| "rw_rlock Wlocked = None"

fun rw_runlock :: "rwlock \<Rightarrow> rwlock option" where
  "rw_runlock (Rlocked 0) = Some Unlocked"
| "rw_runlock (Rlocked (Suc n)) = Some (Rlocked n)"
| "rw_runlock Unlocked = None"
| "rw_runlock Wlocked = None"

fun rw_wlock :: "rwlock \<Rightarrow> rwlock option" where
  "rw_wlock Unlocked = Some Wlocked"
| "rw_wlock (Rlocked n) = None"
| "rw_wlock Wlocked = None"

fun rw_wunlock :: "rwlock \<Rightarrow> rwlock option" where
  "rw_wunlock Wlocked = Some Unlocked"
| "rw_wunlock (Rlocked n) = None"
| "rw_wunlock Unlocked = None"

subsection \<open>The Maker\<close>

record cookie_maker =
  cp_mac1_key :: bytes
  cp_cookie_key :: bytes
  cp_lock :: rwlock
  cp_cookie :: bytes
  cp_birthdate :: sbintime_t
  cp_mac1_valid :: bool
  cp_mac1_last :: bytes

text \<open>
  XChaCha20-Poly1305 is outside the repository: \<open>decrypt src ad nonce key\<close> stands for
  \<^verbatim>\<open>xchacha20poly1305_decrypt\<close>, \<open>None\<close> when it returns 0 (the tag does not verify),
  otherwise the plaintext it writes to \<^verbatim>\<open>dst\<close>.
\<close>

type_synonym decrypt_fn = "bytes \<Rightarrow> bytes \<Rightarrow> bytes \<Rightarrow> bytes \<Rightarrow> bytes option"

definition cookie_maker_consume_payload ::
  "decrypt_fn \<Rightarrow> sbintime_t \<Rightarrow> cookie_maker \<Rightarrow> bytes \<Rightarrow> bytes \<Rightarrow> ((error + unit) \<times> cookie_maker) option" where
  "cookie_maker_consume_payload decrypt now cp nonce ecookie =
     (case rw_wlock (cp_lock cp) of
        None \<Rightarrow> None
      | Some l \<Rightarrow>
          let cp = cp\<lparr>cp_lock := l\<rparr>;
              (ret, cp) =
                (if \<not> cp_mac1_valid cp then (Inl ETIMEDOUT, cp)
                 else
                   (case decrypt (take COOKIE_ENCRYPTED_SIZE ecookie)
                           (take COOKIE_MAC_SIZE (cp_mac1_last cp)) nonce (cp_cookie_key cp) of
                      None \<Rightarrow> (Inl EINVAL, cp)
                    | Some cookie \<Rightarrow>
                        let cp = cp\<lparr>cp_cookie := memcpy cookie COOKIE_COOKIE_SIZE\<rparr>;
                            cp = cp\<lparr>cp_birthdate := now\<rparr>;
                            cp = cp\<lparr>cp_mac1_valid := False\<rparr>
                        in (Inr (), cp)))
          in (case rw_wunlock (cp_lock cp) of
                None \<Rightarrow> None
              | Some l \<Rightarrow> Some (ret, cp\<lparr>cp_lock := l\<rparr>)))"

definition cookie_maker_mac ::
  "blake2s_fn \<Rightarrow> (64 word \<Rightarrow> sbintime_t) \<Rightarrow> sbintime_t \<Rightarrow> cookie_maker \<Rightarrow> cookie_macs \<Rightarrow> bytes
     \<Rightarrow> (cookie_maker \<times> cookie_macs) option" where
  "cookie_maker_mac blake2s nstosbt now cp cm buf =
     (case rw_rlock (cp_lock cp) of
        None \<Rightarrow> None
      | Some l \<Rightarrow>
          let cp = cp\<lparr>cp_lock := l\<rparr>;
              cm = cookie_macs_mac1 blake2s cm buf (cp_mac1_key cp);
              cp = cp\<lparr>cp_mac1_last := memcpy (mac1 cm) COOKIE_MAC_SIZE\<rparr>;
              cp = cp\<lparr>cp_mac1_valid := True\<rparr>;
              cm = (if cookie_timer_expired nstosbt now (cp_birthdate cp)
                         (COOKIE_SECRET_MAX_AGE - COOKIE_SECRET_LATENCY) 0 = Inr ()
                    then cookie_macs_mac2 blake2s cm buf (cp_cookie cp)
                    else cm\<lparr>mac2 := bzero COOKIE_MAC_SIZE\<rparr>)
          in (case rw_runlock (cp_lock cp) of
                None \<Rightarrow> None
              | Some l \<Rightarrow> Some (cp\<lparr>cp_lock := l\<rparr>, cm)))"

subsection \<open>The Checker\<close>

text \<open>The two locks of the Checker and the lock of the rate limiter are not modelled.\<close>

record cookie_checker =
  cc_mac1_key :: bytes
  cc_cookie_key :: bytes
  cc_secret_birthdate :: sbintime_t
  cc_secret :: bytes

text \<open>
  \<^verbatim>\<open>cookie_checker_make_cookie\<close>. \<open>t_expired\<close> is the clock reading of the expiry test
  and \<open>t_refresh\<close> the one stored as the new birthdate; \<open>rnd_secret\<close> and \<open>rnd_cookie\<close>
  are what \<^verbatim>\<open>arc4random_buf\<close> writes when it is called.
\<close>

definition cookie_checker_make_cookie ::
  "blake2s_fn \<Rightarrow> (64 word \<Rightarrow> sbintime_t) \<Rightarrow> sbintime_t \<Rightarrow> sbintime_t \<Rightarrow> bytes \<Rightarrow> bytes
     \<Rightarrow> cookie_checker \<Rightarrow> sockaddr \<Rightarrow> cookie_checker \<times> bytes" where
  "cookie_checker_make_cookie blake2s nstosbt t_expired t_refresh rnd_secret rnd_cookie cc sa =
     (let cc = (if cookie_timer_expired nstosbt t_expired (cc_secret_birthdate cc)
                     COOKIE_SECRET_MAX_AGE 0 \<noteq> Inr ()
                then cc\<lparr>cc_secret := take COOKIE_SECRET_SIZE rnd_secret,
                        cc_secret_birthdate := t_refresh\<rparr>
                else cc);
          state = blake2s_init_key COOKIE_COOKIE_SIZE (cc_secret cc) COOKIE_SECRET_SIZE
      in if sa_family sa = AF_INET then
           let state = blake2s_update state (sin_addr sa) 4;
               state = blake2s_update state (sin_port sa) 2
           in (cc, blake2s_final blake2s state)
         else if sa_family sa = AF_INET6 then
           let state = blake2s_update state (sin6_addr sa) 16;
               state = blake2s_update state (sin6_port sa) 2
           in (cc, blake2s_final blake2s state)
         else (cc, take COOKIE_COOKIE_SIZE rnd_cookie))"

text \<open>
  \<^verbatim>\<open>cookie_checker_validate_macs\<close>. \<open>rl4\<close> and \<open>rl6\<close> are the globals \<^verbatim>\<open>ratelimit_v4\<close>
  and \<^verbatim>\<open>ratelimit_v6\<close>. The local \<^verbatim>\<open>our_cm\<close> is not initialised in C; each of its
  fields is written before it is read. The record \<open>kernel\<close> holds what the kernel hands
  to one call: the clock readings and random bytes of \<^verbatim>\<open>cookie_checker_make_cookie\<close>,
  and the clock reading and allocator answer of \<^verbatim>\<open>ratelimit_allow\<close>.
\<close>

record kernel =
  k_t_expired :: sbintime_t
  k_t_refresh :: sbintime_t
  k_rnd_secret :: bytes
  k_rnd_cookie :: bytes
  k_t_allow :: sbintime_t
  k_zalloc_ok :: bool

definition cookie_checker_validate_macs ::
  "blake2s_fn \<Rightarrow> (64 word \<Rightarrow> sbintime_t) \<Rightarrow> (bytes \<Rightarrow> bytes \<Rightarrow> 64 word) \<Rightarrow> kernel
     \<Rightarrow> cookie_checker \<Rightarrow> ratelimit \<Rightarrow> ratelimit \<Rightarrow> cookie_macs \<Rightarrow> bytes \<Rightarrow> int \<Rightarrow> sockaddr
     \<Rightarrow> (error + unit) \<times> cookie_checker \<times> ratelimit \<times> ratelimit" where
  "cookie_checker_validate_macs blake2s nstosbt siphash13 k cc rl4 rl6 cm buf busy sa =
     (let our_cm = \<lparr>mac1 = [], mac2 = []\<rparr>;
          our_cm = cookie_macs_mac1 blake2s our_cm buf (cc_mac1_key cc)
      in if timingsafe_bcmp (mac1 our_cm) (mac1 cm) COOKIE_MAC_SIZE \<noteq> 0
         then (Inl EINVAL, cc, rl4, rl6)
         else if busy \<noteq> 0 then
           let (cc, cookie) = cookie_checker_make_cookie blake2s nstosbt (k_t_expired k)
                                (k_t_refresh k) (k_rnd_secret k) (k_rnd_cookie k) cc sa;
               our_cm = cookie_macs_mac2 blake2s our_cm buf cookie
           in if timingsafe_bcmp (mac2 our_cm) (mac2 cm) COOKIE_MAC_SIZE \<noteq> 0
              then (Inl EAGAIN, cc, rl4, rl6)
              else if sa_family sa = AF_INET then
                (case ratelimit_allow siphash13 (k_t_allow k) (k_zalloc_ok k) rl4 sa of
                   (ret, rl4) \<Rightarrow> (ret, cc, rl4, rl6))
              else if sa_family sa = AF_INET6 then
                (case ratelimit_allow siphash13 (k_t_allow k) (k_zalloc_ok k) rl6 sa of
                   (ret, rl6) \<Rightarrow> (ret, cc, rl4, rl6))
              else (Inl EAFNOSUPPORT, cc, rl4, rl6)
         else (Inr (), cc, rl4, rl6))"

subsection \<open>Stand-ins for the primitives\<close>

text \<open>
  Executable functions of the types of the primitives, to evaluate the model on concrete
  inputs. They are not the primitives, and only the evaluations at concrete inputs use
  them. \<open>example_nstosbt\<close> is the conversion of less than a second of nanoseconds.
\<close>

definition example_siphash13 :: "bytes \<Rightarrow> bytes \<Rightarrow> 64 word" where
  "example_siphash13 key src = ucast (sum_list (key @ src))"

definition example_blake2s :: blake2s_fn where
  "example_blake2s outlen key msg = replicate outlen (of_nat (Suc (length key + length msg)))"

definition example_nstosbt :: "64 word \<Rightarrow> sbintime_t" where
  "example_nstosbt ns = drop_bit 31 (ns * 9223372037 + 2147483647)"

definition example_decrypt :: decrypt_fn where
  "example_decrypt src ad nonce key =
     (if drop COOKIE_COOKIE_SIZE src = ad then Some (take COOKIE_COOKIE_SIZE src) else None)"

section \<open>Properties\<close>

subsection \<open>Values of the constants\<close>

lemma INITIATION_COST_val: "INITIATION_COST = 214748364"
  by (simp add: INITIATION_COST_def sdiv64_def SBT_1S_def INITIATIONS_PER_SECOND_def
      signed_divide_int_def)

lemma TOKEN_MAX_val: "TOKEN_MAX = 1073741820"
  by (simp add: TOKEN_MAX_def INITIATION_COST_val INITIATIONS_BURSTABLE_def)

lemma RATELIMIT_SIZE_MAX_val: "RATELIMIT_SIZE_MAX = 65536"
  by (simp add: RATELIMIT_SIZE_MAX_def RATELIMIT_SIZE_def)

lemma unat_INITIATIONS_BURSTABLE: "unat INITIATIONS_BURSTABLE = 5"
  by (simp add: INITIATIONS_BURSTABLE_def)

lemma AF_INET_neq: "AF_INET \<noteq> AF_INET6"
  by (simp add: AF_INET_def AF_INET6_def)

lemma replicate_5: "replicate 5 x = [x, x, x, x, x]"
  by (simp add: numeral_eq_Suc)

subsection \<open>Signed and unsigned readings of a 64-bit word\<close>

lemma sint_nonneg_uint:
  fixes x :: "64 word"
  assumes "0 \<le> sint x"
  shows "uint x = sint x"
proof -
  have "sint x < 2 ^ 63" using sint_lt [of x] by simp
  then have "sint x < 2 ^ 64" by simp
  then have "take_bit 64 (sint x) = sint x"
    using assms by (simp add: take_bit_int_eq_self)
  then show ?thesis using uint_sint [of x] by simp
qed

lemma sint_nonneg_uint_less:
  fixes x :: "64 word"
  assumes "0 \<le> sint x"
  shows "uint x < 2 ^ 63"
  using sint_nonneg_uint [OF assms] sint_lt [of x] by simp

lemma sint_add_no_overflow:
  fixes a b :: "64 word"
  assumes "- (2 ^ 63) \<le> sint a + sint b" "sint a + sint b < 2 ^ 63"
  shows "sint (a + b) = sint a + sint b"
  using assms by (simp add: sint_word_ariths signed_take_bit_int_eq_self)

subsection \<open>The scan of a bucket\<close>

lemma ratelimit_scan_first:
  assumes "\<forall>x\<in>set xs. \<not> entry_matches sa x" and "entry_matches sa r"
  shows "ratelimit_scan now sa (xs @ r # ys) =
           Some (fst (token_bucket now r), xs @ snd (token_bucket now r) # ys)"
  using assms by (induction xs) (auto split: prod.splits)

lemma ratelimit_scan_none:
  "\<forall>x\<in>set xs. \<not> entry_matches sa x \<Longrightarrow> ratelimit_scan now sa xs = None"
  by (induction xs) auto

lemma entry_matches_new_entry:
  "sa_family sa = AF_INET \<or> sa_family sa = AF_INET6 \<Longrightarrow> entry_matches sa (new_entry now sa)"
  using AF_INET_neq by (auto simp: entry_matches_def new_entry_def bcmp_def memcpy_def)

lemma entry_matches_token_bucket:
  "entry_matches sa (snd (token_bucket now r)) = entry_matches sa r"
  by (auto simp: entry_matches_def token_bucket_def Let_def)

lemma token_bucket_min:
  "token_bucket now r =
     (let t = min (r_tokens r + (now - r_last_time r)) TOKEN_MAX
      in if INITIATION_COST \<le> t
         then (Inr (), r\<lparr>r_last_time := now, r_tokens := t - INITIATION_COST\<rparr>)
         else (Inl ECONNREFUSED, r\<lparr>r_last_time := now, r_tokens := t\<rparr>))"
  by (auto simp: token_bucket_def Let_def min_def)

lemma ratelimit_bucket_update [simp]:
  "ratelimit_bucket S (rl\<lparr>rl_table := t\<rparr>) sa = ratelimit_bucket S rl sa"
  "ratelimit_bucket S (rl\<lparr>rl_table_num := n\<rparr>) sa = ratelimit_bucket S rl sa"
  "ratelimit_bucket S (rl\<lparr>rl_gc := g\<rparr>) sa = ratelimit_bucket S rl sa"
  by (simp_all add: ratelimit_bucket_def ratelimit_key_def)

lemma ratelimit_bucket_gc_schedule [simp]:
  "ratelimit_bucket S (ratelimit_gc_schedule rl) sa = ratelimit_bucket S rl sa"
  by (simp add: ratelimit_gc_schedule_def)

lemma rl_table_gc_schedule [simp]: "rl_table (ratelimit_gc_schedule rl) = rl_table rl"
  by (simp add: ratelimit_gc_schedule_def)

lemma rl_table_num_gc_schedule [simp]:
  "rl_table_num (ratelimit_gc_schedule rl) = rl_table_num rl"
  by (simp add: ratelimit_gc_schedule_def)

lemma fst_ratelimit_allow_seq_Cons:
  "fst (ratelimit_allow_seq S ((now, z, sa) # cs) rl) =
     fst (ratelimit_allow S now z rl sa) #
     fst (ratelimit_allow_seq S cs (snd (ratelimit_allow S now z rl sa)))"
  by (simp split: prod.splits)

lemma snd_ratelimit_allow_seq_Cons:
  "snd (ratelimit_allow_seq S ((now, z, sa) # cs) rl) =
     snd (ratelimit_allow_seq S cs (snd (ratelimit_allow S now z rl sa)))"
  by (simp split: prod.splits)

subsection \<open>The token bucket of an existing entry\<close>

text \<open>
  Claim C1. When the scan of the bucket finds an entry \<open>r\<close> of the source (the first
  entry of the bucket that matches), \<^verbatim>\<open>ratelimit_allow\<close> sets the entry's \<open>r_last_time\<close>
  to \<open>now\<close> and computes \<open>tokens = min (r_tokens + (now - r_last_time)) TOKEN_MAX\<close>, in
  64-bit arithmetic; when \<open>tokens \<ge> INITIATION_COST\<close> it returns 0 and stores
  \<open>tokens - INITIATION_COST\<close>, otherwise it returns \<^verbatim>\<open>ECONNREFUSED\<close> and stores
  \<open>tokens\<close>. Nothing else of the limiter changes. The cost is
  \<open>SBT_1S / INITIATIONS_PER_SECOND\<close> and the cap is the cost times
  \<open>INITIATIONS_BURSTABLE\<close>.
\<close>

theorem ratelimit_allow_existing:
  assumes fam: "sa_family sa = AF_INET \<or> sa_family sa = AF_INET6"
    and bucket: "rl_table rl (ratelimit_bucket siphash13 rl sa) = xs @ r # ys"
    and first: "\<forall>x\<in>set xs. \<not> entry_matches sa x"
    and found: "entry_matches sa r"
  shows "INITIATION_COST = sdiv64 SBT_1S INITIATIONS_PER_SECOND \<and>
         TOKEN_MAX = INITIATION_COST * INITIATIONS_BURSTABLE \<and>
         ratelimit_allow siphash13 now zalloc_ok rl sa =
           (let tokens = min (r_tokens r + (now - r_last_time r)) TOKEN_MAX
            in if INITIATION_COST \<le> tokens
               then (Inr (),
                     rl\<lparr>rl_table := (rl_table rl)(ratelimit_bucket siphash13 rl sa :=
                          xs @ r\<lparr>r_last_time := now, r_tokens := tokens - INITIATION_COST\<rparr> # ys)\<rparr>)
               else (Inl ECONNREFUSED,
                     rl\<lparr>rl_table := (rl_table rl)(ratelimit_bucket siphash13 rl sa :=
                          xs @ r\<lparr>r_last_time := now, r_tokens := tokens\<rparr> # ys)\<rparr>))"
proof -
  have scan: "ratelimit_scan now sa (rl_table rl (ratelimit_bucket siphash13 rl sa)) =
      Some (fst (token_bucket now r), xs @ snd (token_bucket now r) # ys)"
    unfolding bucket using first found by (rule ratelimit_scan_first)
  show ?thesis
    using fam
    by (auto simp: ratelimit_allow_def scan Let_def token_bucket_min INITIATION_COST_def
        TOKEN_MAX_def)
qed

theorem ratelimit_allow_existing_witness:
  "let e = \<lparr>r_af = AF_INET, r_u = [10, 0, 0, 1], r_last_time = 0, r_tokens = 0\<rparr>;
       rl = \<lparr>rl_secret = [], rl_gc = True, rl_table = (\<lambda>b. [])(11 := [e]),
             rl_table_mask = 8191, rl_table_num = 1\<rparr>;
       sa = \<lparr>sa_family = AF_INET, sin_addr = [10, 0, 0, 1], sin_port = [0, 1],
             sin6_addr = [], sin6_port = []\<rparr>
   in sa_family sa = AF_INET \<and>
      rl_table rl (ratelimit_bucket example_siphash13 rl sa) = [] @ e # [] \<and>
      entry_matches sa e \<and>
      ratelimit_allow example_siphash13 214748364 True rl sa =
        (Inr (),
         rl\<lparr>rl_table := (rl_table rl)(11 := [e\<lparr>r_last_time := 214748364, r_tokens := 0\<rparr>])\<rparr>)"
  using ratelimit_allow_existing [of
      "\<lparr>sa_family = AF_INET, sin_addr = [10, 0, 0, 1], sin_port = [0, 1],
        sin6_addr = [], sin6_port = []\<rparr>"
      "\<lparr>rl_secret = [], rl_gc = True,
        rl_table = (\<lambda>b. [])(11 := [\<lparr>r_af = AF_INET, r_u = [10, 0, 0, 1], r_last_time = 0,
                                    r_tokens = 0\<rparr>]),
        rl_table_mask = 8191, rl_table_num = 1\<rparr>"
      example_siphash13 "[]"
      "\<lparr>r_af = AF_INET, r_u = [10, 0, 0, 1], r_last_time = 0, r_tokens = 0\<rparr>" "[]"
      214748364 True]
  by (simp add: Let_def ratelimit_bucket_def ratelimit_key_def entry_matches_def bcmp_def
      IPV4_MASK_SIZE_def IPV6_MASK_SIZE_def AF_INET_def AF_INET6_def INITIATION_COST_val
      TOKEN_MAX_val example_siphash13_def)

subsection \<open>A new entry and the burst\<close>

lemma ratelimit_allow_head:
  assumes "sa_family sa = AF_INET \<or> sa_family sa = AF_INET6"
    and "rl_table rl (ratelimit_bucket S rl sa) = r # ys"
    and "entry_matches sa r"
  shows "ratelimit_allow S now z rl sa =
           (fst (token_bucket now r),
            rl\<lparr>rl_table := (rl_table rl)(ratelimit_bucket S rl sa := snd (token_bucket now r) # ys)\<rparr>)"
  using assms by (auto simp: ratelimit_allow_def Let_def split: prod.splits)

lemma ratelimit_allow_insert:
  assumes "sa_family sa = AF_INET \<or> sa_family sa = AF_INET6"
    and "\<forall>x\<in>set (rl_table rl (ratelimit_bucket S rl sa)). \<not> entry_matches sa x"
    and "rl_table_num rl < RATELIMIT_SIZE_MAX"
  shows "ratelimit_allow S now True rl sa =
           (Inr (),
            ratelimit_gc_schedule
              (rl\<lparr>rl_table_num := rl_table_num rl + 1,
                  rl_table := (rl_table rl)(ratelimit_bucket S rl sa :=
                     new_entry now sa # rl_table rl (ratelimit_bucket S rl sa))\<rparr>))"
  using assms by (auto simp: ratelimit_allow_def Let_def ratelimit_scan_none)

lemma token_bucket_same_instant:
  assumes "k < 5" and "r_last_time r = now" and "r_tokens r = of_nat (Suc k) * INITIATION_COST"
  shows "token_bucket now r = (Inr (), r\<lparr>r_tokens := of_nat k * INITIATION_COST\<rparr>)"
proof -
  from \<open>k < 5\<close> have "k = 0 \<or> k = 1 \<or> k = 2 \<or> k = 3 \<or> k = 4" by arith
  then show ?thesis
    using assms(2,3)
    by (auto simp: token_bucket_def Let_def INITIATION_COST_val TOKEN_MAX_val)
qed

lemma token_bucket_empty:
  assumes "r_last_time r = now" and "r_tokens r = 0"
  shows "token_bucket now r = (Inl ECONNREFUSED, r)"
  using assms by (simp add: token_bucket_def Let_def INITIATION_COST_val TOKEN_MAX_val)

text \<open>
  With \<open>k\<close> initiations left in the entry at the head of the bucket, \<open>k\<close> more calls at
  the instant of its \<open>r_last_time\<close> are allowed and the next one is refused.
\<close>

lemma burst_tail:
  assumes "sa_family sa = AF_INET \<or> sa_family sa = AF_INET6"
    and "rl_table rl (ratelimit_bucket S rl sa) = r # ys"
    and "entry_matches sa r"
    and "r_last_time r = now"
    and "r_tokens r = of_nat k * INITIATION_COST"
    and "k < 5"
    and "length zs = Suc k"
  shows "fst (ratelimit_allow_seq S (map (\<lambda>z. (now, z, sa)) zs) rl) =
           replicate k (Inr ()) @ [Inl ECONNREFUSED]"
  using assms
proof (induction k arbitrary: rl r zs)
  case 0
  then obtain z where zs: "zs = [z]" by (cases zs) auto
  from 0 have tb: "token_bucket now r = (Inl ECONNREFUSED, r)"
    by (simp add: token_bucket_empty)
  show ?case
    by (simp add: zs fst_ratelimit_allow_seq_Cons ratelimit_allow_head [OF "0.prems"(1,2,3)] tb
        del: ratelimit_allow_seq.simps(2))
next
  case (Suc k)
  then obtain z zs' where zs: "zs = z # zs'" and len: "length zs' = Suc k" by (cases zs) auto
  let ?r' = "r\<lparr>r_tokens := of_nat k * INITIATION_COST\<rparr>"
  let ?rl' = "rl\<lparr>rl_table := (rl_table rl)(ratelimit_bucket S rl sa := ?r' # ys)\<rparr>"
  from Suc.prems have tb: "token_bucket now r = (Inr (), ?r')"
    by (intro token_bucket_same_instant) auto
  have step: "ratelimit_allow S now z rl sa = (Inr (), ?rl')"
    by (simp add: ratelimit_allow_head [OF Suc.prems(1,2,3)] tb)
  have m: "entry_matches sa ?r'"
    using Suc.prems(3) by (auto simp: entry_matches_def split: if_splits)
  have "fst (ratelimit_allow_seq S (map (\<lambda>z. (now, z, sa)) zs') ?rl') =
          replicate k (Inr ()) @ [Inl ECONNREFUSED]"
    using Suc.prems(1,4,6) m len
    by (intro Suc.IH [where r = ?r']) auto
  then show ?case
    by (simp add: zs fst_ratelimit_allow_seq_Cons step del: ratelimit_allow_seq.simps(2))
qed

text \<open>
  Claim C3. A call for a source with no entry, while the table has room and the
  allocation succeeds, puts at the head of the bucket an entry with
  \<open>r_tokens = TOKEN_MAX - INITIATION_COST\<close> and \<open>r_last_time = now\<close>. That call and the
  next \<open>INITIATIONS_BURSTABLE - 1\<close> calls at the same clock reading return 0, and the
  call after them returns \<^verbatim>\<open>ECONNREFUSED\<close>: \<open>zs\<close> are the allocator answers of the
  calls after the first, which never allocate.
\<close>

theorem ratelimit_burst:
  assumes fam: "sa_family sa = AF_INET \<or> sa_family sa = AF_INET6"
    and unseen: "\<forall>x\<in>set (rl_table rl (ratelimit_bucket S rl sa)). \<not> entry_matches sa x"
    and room: "rl_table_num rl < RATELIMIT_SIZE_MAX"
    and len: "length zs = unat INITIATIONS_BURSTABLE"
  shows "rl_table (snd (ratelimit_allow S now True rl sa)) (ratelimit_bucket S rl sa) =
           \<lparr>r_af = sa_family sa,
            r_u = (if sa_family sa = AF_INET then take IPV4_MASK_SIZE (sin_addr sa)
                   else take IPV6_MASK_SIZE (sin6_addr sa)),
            r_last_time = now,
            r_tokens = TOKEN_MAX - INITIATION_COST\<rparr>
           # rl_table rl (ratelimit_bucket S rl sa) \<and>
         fst (ratelimit_allow_seq S ((now, True, sa) # map (\<lambda>z. (now, z, sa)) zs) rl) =
           replicate (unat INITIATIONS_BURSTABLE) (Inr ()) @ [Inl ECONNREFUSED]"
proof -
  let ?b = "ratelimit_bucket S rl sa"
  let ?rl' = "ratelimit_gc_schedule
              (rl\<lparr>rl_table_num := rl_table_num rl + 1,
                  rl_table := (rl_table rl)(?b := new_entry now sa # rl_table rl ?b)\<rparr>)"
  have ins: "ratelimit_allow S now True rl sa = (Inr (), ?rl')"
    using fam unseen room by (rule ratelimit_allow_insert)
  have len': "length zs = Suc 4"
    using len by (simp add: INITIATIONS_BURSTABLE_def)
  have tail: "fst (ratelimit_allow_seq S (map (\<lambda>z. (now, z, sa)) zs) ?rl') =
          replicate 4 (Inr ()) @ [Inl ECONNREFUSED]"
  proof (rule burst_tail [where r = "new_entry now sa" and ys = "rl_table rl ?b"])
    show "r_tokens (new_entry now sa) = of_nat 4 * INITIATION_COST"
      by (simp add: new_entry_def TOKEN_MAX_val INITIATION_COST_val)
  qed (use fam len' in \<open>simp_all add: entry_matches_new_entry\<close>, simp add: new_entry_def)
  have "rl_table (snd (ratelimit_allow S now True rl sa)) ?b = new_entry now sa # rl_table rl ?b"
    by (simp add: ins)
  moreover have "fst (ratelimit_allow_seq S ((now, True, sa) # map (\<lambda>z. (now, z, sa)) zs) rl) =
      replicate 5 (Inr ()) @ [Inl ECONNREFUSED]"
    by (simp only: fst_ratelimit_allow_seq_Cons ins fst_conv snd_conv tail)
      (simp add: numeral_eq_Suc)
  ultimately show ?thesis
    by (simp add: unat_INITIATIONS_BURSTABLE new_entry_def memcpy_def)
qed

theorem ratelimit_burst_witness:
  "let rl = \<lparr>rl_secret = [], rl_gc = False, rl_table = (\<lambda>b. []),
             rl_table_mask = 8191, rl_table_num = 0\<rparr>;
       sa = \<lparr>sa_family = AF_INET, sin_addr = [10, 0, 0, 1], sin_port = [0, 1],
             sin6_addr = [], sin6_port = []\<rparr>;
       c = (7, True, sa)
   in sa_family sa = AF_INET \<and>
      rl_table rl (ratelimit_bucket example_siphash13 rl sa) = [] \<and>
      rl_table_num rl < RATELIMIT_SIZE_MAX \<and>
      length [True, True, True, True, True] = unat INITIATIONS_BURSTABLE \<and>
      fst (ratelimit_allow_seq example_siphash13 [c, c, c, c, c, c] rl) =
        [Inr (), Inr (), Inr (), Inr (), Inr (), Inl ECONNREFUSED]"
  using ratelimit_burst [of
      "\<lparr>sa_family = AF_INET, sin_addr = [10, 0, 0, 1], sin_port = [0, 1],
        sin6_addr = [], sin6_port = []\<rparr>"
      "\<lparr>rl_secret = [], rl_gc = False, rl_table = (\<lambda>b. []),
        rl_table_mask = 8191, rl_table_num = 0\<rparr>"
      example_siphash13 "[True, True, True, True, True]" 7]
  by (simp add: Let_def RATELIMIT_SIZE_MAX_val unat_INITIATIONS_BURSTABLE replicate_5
      del: ratelimit_allow_seq.simps)

subsection \<open>The cap on the number of entries\<close>

lemma rl_table_num_ratelimit_allow:
  "rl_table_num (snd (ratelimit_allow S now z rl sa)) =
     (if (sa_family sa = AF_INET \<or> sa_family sa = AF_INET6) \<and>
         ratelimit_scan now sa (rl_table rl (ratelimit_bucket S rl sa)) = None \<and>
         rl_table_num rl < RATELIMIT_SIZE_MAX \<and> z
      then rl_table_num rl + 1 else rl_table_num rl)"
  by (auto simp: ratelimit_allow_def Let_def not_le split: option.splits prod.splits)

lemma ratelimit_allow_num_le:
  "rl_table_num rl \<le> RATELIMIT_SIZE_MAX \<Longrightarrow>
   rl_table_num (snd (ratelimit_allow S now z rl sa)) \<le> RATELIMIT_SIZE_MAX"
  by (simp add: rl_table_num_ratelimit_allow inc_le)

lemma ratelimit_allow_seq_num_le:
  "rl_table_num rl \<le> RATELIMIT_SIZE_MAX \<Longrightarrow>
   rl_table_num (snd (ratelimit_allow_seq S cs rl)) \<le> RATELIMIT_SIZE_MAX"
proof (induction cs arbitrary: rl)
  case Nil
  then show ?case by simp
next
  case (Cons c cs)
  obtain now z sa where c: "c = (now, z, sa)" by (cases c)
  have "rl_table_num (snd (ratelimit_allow S now z rl sa)) \<le> RATELIMIT_SIZE_MAX"
    using Cons.prems by (rule ratelimit_allow_num_le)
  then have "rl_table_num (snd (ratelimit_allow_seq S cs (snd (ratelimit_allow S now z rl sa))))
      \<le> RATELIMIT_SIZE_MAX"
    by (rule Cons.IH)
  then show ?case
    by (simp only: c snd_ratelimit_allow_seq_Cons)
qed

lemma ratelimit_allow_refuse_new:
  assumes "\<forall>x\<in>set (rl_table rl (ratelimit_bucket S rl sa)). \<not> entry_matches sa x"
    and "rl_table_num rl \<ge> RATELIMIT_SIZE_MAX \<or> \<not> z"
  shows "ratelimit_allow S now z rl sa = (Inl ECONNREFUSED, rl)"
  using assms by (auto simp: ratelimit_allow_def Let_def ratelimit_scan_none)

text \<open>
  Claim C4. \<open>rl_table_num\<close> is at most \<open>RATELIMIT_SIZE_MAX = 65536\<close> after every sequence
  of calls to \<^verbatim>\<open>ratelimit_allow\<close> that starts from a limiter within the cap. A call for
  a source with no entry returns \<^verbatim>\<open>ECONNREFUSED\<close> and leaves the limiter as it was
  when \<open>rl_table_num\<close> is at the cap, and when the allocation fails.
\<close>

theorem ratelimit_capacity:
  assumes "rl_table_num rl \<le> RATELIMIT_SIZE_MAX"
  shows "RATELIMIT_SIZE_MAX = 65536 \<and>
         rl_table_num (snd (ratelimit_allow_seq S cs rl)) \<le> RATELIMIT_SIZE_MAX \<and>
         ((\<forall>x\<in>set (rl_table rl (ratelimit_bucket S rl sa)). \<not> entry_matches sa x) \<and>
          (rl_table_num rl = RATELIMIT_SIZE_MAX \<or> \<not> zalloc_ok) \<longrightarrow>
          ratelimit_allow S now zalloc_ok rl sa = (Inl ECONNREFUSED, rl))"
  using assms
  by (auto simp: RATELIMIT_SIZE_MAX_val [symmetric] ratelimit_allow_seq_num_le
      intro!: ratelimit_allow_refuse_new)

theorem ratelimit_capacity_witness:
  "let e = \<lparr>r_af = AF_INET, r_u = [10, 0, 0, 2], r_last_time = 0, r_tokens = 0\<rparr>;
       rl = \<lparr>rl_secret = [], rl_gc = True, rl_table = (\<lambda>b. replicate 8 e),
             rl_table_mask = 8191, rl_table_num = 65536\<rparr>;
       sa = \<lparr>sa_family = AF_INET, sin_addr = [10, 0, 0, 1], sin_port = [0, 1],
             sin6_addr = [], sin6_port = []\<rparr>
   in rl_table_num rl \<le> RATELIMIT_SIZE_MAX \<and>
      rl_table_num rl = RATELIMIT_SIZE_MAX \<and>
      \<not> entry_matches sa e \<and>
      rl_table_num (snd (ratelimit_allow_seq example_siphash13
                           [(5, True, sa), (6, False, sa)] rl)) \<le> RATELIMIT_SIZE_MAX \<and>
      ratelimit_allow example_siphash13 5 True rl sa = (Inl ECONNREFUSED, rl)"
  using ratelimit_capacity [of
      "\<lparr>rl_secret = [], rl_gc = True,
        rl_table = (\<lambda>b. replicate 8 \<lparr>r_af = AF_INET, r_u = [10, 0, 0, 2], r_last_time = 0,
                                      r_tokens = 0\<rparr>),
        rl_table_mask = 8191, rl_table_num = 65536\<rparr>"
      example_siphash13
      "[(5, True, \<lparr>sa_family = AF_INET, sin_addr = [10, 0, 0, 1], sin_port = [0, 1],
                   sin6_addr = [], sin6_port = []\<rparr>),
        (6, False, \<lparr>sa_family = AF_INET, sin_addr = [10, 0, 0, 1], sin_port = [0, 1],
                    sin6_addr = [], sin6_port = []\<rparr>)]"
      "\<lparr>sa_family = AF_INET, sin_addr = [10, 0, 0, 1], sin_port = [0, 1],
        sin6_addr = [], sin6_port = []\<rparr>"
      True 5]
  by (simp add: Let_def RATELIMIT_SIZE_MAX_val entry_matches_def bcmp_def IPV4_MASK_SIZE_def
      IPV6_MASK_SIZE_def AF_INET_def AF_INET6_def del: ratelimit_allow_seq.simps)

subsection \<open>Keying on the address prefix\<close>

lemma ratelimit_scan_cong:
  "(\<And>r. entry_matches sa1 r = entry_matches sa2 r) \<Longrightarrow>
   ratelimit_scan now sa1 rs = ratelimit_scan now sa2 rs"
  by (induction rs) auto

lemma entry_matches_in6:
  assumes "sa_family sa1 = AF_INET6" "sa_family sa2 = AF_INET6"
    and "take IPV6_MASK_SIZE (sin6_addr sa1) = take IPV6_MASK_SIZE (sin6_addr sa2)"
  shows "entry_matches sa1 r = entry_matches sa2 r"
  using assms AF_INET_neq by (auto simp: entry_matches_def bcmp_def)

lemma ratelimit_allow_in6_prefix:
  assumes "sa_family sa1 = AF_INET6" "sa_family sa2 = AF_INET6"
    and "take IPV6_MASK_SIZE (sin6_addr sa1) = take IPV6_MASK_SIZE (sin6_addr sa2)"
  shows "ratelimit_allow S now z rl sa1 = ratelimit_allow S now z rl sa2"
proof -
  have b: "ratelimit_bucket S rl sa1 = ratelimit_bucket S rl sa2"
    using assms AF_INET_neq by (simp add: ratelimit_bucket_def ratelimit_key_def)
  have n: "new_entry now sa1 = new_entry now sa2"
    using assms AF_INET_neq by (simp add: new_entry_def memcpy_def)
  have s: "ratelimit_scan now sa1 rs = ratelimit_scan now sa2 rs" for rs
    by (rule ratelimit_scan_cong) (rule entry_matches_in6 [OF assms])
  show ?thesis
    by (simp add: ratelimit_allow_def Let_def b n s assms(1,2) split: option.splits)
qed

lemma entry_matches_in4_distinct:
  assumes "sa_family sa1 = AF_INET" "sa_family sa2 = AF_INET"
    and "take IPV4_MASK_SIZE (sin_addr sa1) \<noteq> take IPV4_MASK_SIZE (sin_addr sa2)"
    and "entry_matches sa1 r"
  shows "\<not> entry_matches sa2 r"
  using assms by (auto simp: entry_matches_def bcmp_def split: if_splits)

text \<open>
  When no entry is the entry of both addresses, the scan for the first leaves the entry
  that a scan for the second finds as it was.
\<close>

lemma find_ratelimit_scan_other:
  assumes "\<And>r. entry_matches sa1 r \<Longrightarrow> \<not> entry_matches sa2 r"
    and "ratelimit_scan now sa1 rs = Some (ret, rs')"
  shows "find (entry_matches sa2) rs' = find (entry_matches sa2) rs"
  using assms(2)
proof (induction rs arbitrary: rs')
  case Nil
  then show ?case by simp
next
  case (Cons r rs)
  show ?case
  proof (cases "entry_matches sa1 r")
    case True
    then have "rs' = snd (token_bucket now r) # rs"
      using Cons.prems by (auto split: prod.splits)
    moreover have "\<not> entry_matches sa2 r" using True by (rule assms(1))
    moreover have "\<not> entry_matches sa2 (snd (token_bucket now r))"
      using True assms(1) by (simp add: entry_matches_token_bucket)
    ultimately show ?thesis by simp
  next
    case False
    then obtain rs'' where "ratelimit_scan now sa1 rs = Some (ret, rs'')" and "rs' = r # rs''"
      using Cons.prems by (auto split: option.splits)
    then show ?thesis using Cons.IH by simp
  qed
qed

lemma find_ratelimit_allow_other:
  assumes "\<And>r. entry_matches sa1 r \<Longrightarrow> \<not> entry_matches sa2 r"
  shows "find (entry_matches sa2) (rl_table (snd (ratelimit_allow S now z rl sa1)) b) =
         find (entry_matches sa2) (rl_table rl b)"
proof (cases "ratelimit_scan now sa1 (rl_table rl (ratelimit_bucket S rl sa1))")
  case None
  have "\<not> entry_matches sa2 (new_entry now sa1)"
    if "sa_family sa1 = AF_INET \<or> sa_family sa1 = AF_INET6"
    using that by (intro assms entry_matches_new_entry)
  then show ?thesis
    using None by (auto simp: ratelimit_allow_def Let_def)
next
  case (Some p)
  obtain ret rs' where p: "p = (ret, rs')" by (cases p)
  have "find (entry_matches sa2) rs' =
      find (entry_matches sa2) (rl_table rl (ratelimit_bucket S rl sa1))"
    using assms Some [unfolded p] by (rule find_ratelimit_scan_other)
  then show ?thesis
    using Some by (auto simp: ratelimit_allow_def Let_def p)
qed

text \<open>The burst of a source whose first call inserts its entry.\<close>

lemma burst_after_insert:
  assumes fam: "sa_family sa = AF_INET \<or> sa_family sa = AF_INET6"
    and unseen: "\<forall>x\<in>set (rl_table rl (ratelimit_bucket S rl sa)). \<not> entry_matches sa x"
    and room: "rl_table_num rl < RATELIMIT_SIZE_MAX"
    and len: "length zs = 5"
  shows "fst (ratelimit_allow_seq S ((now, True, sa) # map (\<lambda>z. (now, z, sa)) zs) rl) =
           replicate 5 (Inr ()) @ [Inl ECONNREFUSED]"
proof -
  let ?b = "ratelimit_bucket S rl sa"
  let ?rl' = "ratelimit_gc_schedule
              (rl\<lparr>rl_table_num := rl_table_num rl + 1,
                  rl_table := (rl_table rl)(?b := new_entry now sa # rl_table rl ?b)\<rparr>)"
  have ins: "ratelimit_allow S now True rl sa = (Inr (), ?rl')"
    using fam unseen room by (rule ratelimit_allow_insert)
  have len': "length zs = Suc 4"
    using len by simp
  have tail: "fst (ratelimit_allow_seq S (map (\<lambda>z. (now, z, sa)) zs) ?rl') =
          replicate 4 (Inr ()) @ [Inl ECONNREFUSED]"
  proof (rule burst_tail [where r = "new_entry now sa" and ys = "rl_table rl ?b"])
    show "r_tokens (new_entry now sa) = of_nat 4 * INITIATION_COST"
      by (simp add: new_entry_def TOKEN_MAX_val INITIATION_COST_val)
  qed (use fam len' in \<open>simp_all add: entry_matches_new_entry\<close>, simp add: new_entry_def)
  show ?thesis
    by (simp only: fst_ratelimit_allow_seq_Cons ins fst_conv snd_conv tail)
      (simp add: numeral_eq_Suc)
qed

lemma fst_ratelimit_allow_seq_append:
  "fst (ratelimit_allow_seq S (cs @ ds) rl) =
     fst (ratelimit_allow_seq S cs rl) @
     fst (ratelimit_allow_seq S ds (snd (ratelimit_allow_seq S cs rl)))"
proof (induction cs arbitrary: rl)
  case Nil
  then show ?case by simp
next
  case (Cons c cs)
  obtain now z sa where c: "c = (now, z, sa)" by (cases c)
  show ?case
    by (simp only: c append_Cons fst_ratelimit_allow_seq_Cons snd_ratelimit_allow_seq_Cons
        Cons.IH)
qed

lemma ratelimit_bucket_allow [simp]:
  "ratelimit_bucket S (snd (ratelimit_allow S' now z rl sa)) sa' = ratelimit_bucket S rl sa'"
  by (simp add: ratelimit_allow_def Let_def split: option.splits prod.splits)

lemma ratelimit_bucket_allow_seq [simp]:
  "ratelimit_bucket S (snd (ratelimit_allow_seq S' cs rl)) sa' = ratelimit_bucket S rl sa'"
proof (induction cs arbitrary: rl)
  case Nil
  then show ?case by simp
next
  case (Cons c cs)
  obtain now z sa where c: "c = (now, z, sa)" by (cases c)
  show ?case
    by (simp only: c snd_ratelimit_allow_seq_Cons Cons.IH ratelimit_bucket_allow)
qed

text \<open>A source that has an entry keeps it, and its calls leave the count as it was.\<close>

lemma ratelimit_scan_seen:
  "\<exists>x\<in>set rs. entry_matches sa x \<Longrightarrow>
   \<exists>ret rs'. ratelimit_scan now sa rs = Some (ret, rs') \<and> (\<exists>x\<in>set rs'. entry_matches sa x)"
proof (induction rs)
  case Nil
  then show ?case by simp
next
  case (Cons r rs)
  show ?case
  proof (cases "entry_matches sa r")
    case True
    then have "entry_matches sa (snd (token_bucket now r))"
      by (simp add: entry_matches_token_bucket)
    then show ?thesis using True by (auto split: prod.splits)
  next
    case False
    then have "\<exists>x\<in>set rs. entry_matches sa x" using Cons.prems by auto
    then obtain ret rs' where "ratelimit_scan now sa rs = Some (ret, rs')"
      and "\<exists>x\<in>set rs'. entry_matches sa x"
      using Cons.IH by blast
    then show ?thesis using False by auto
  qed
qed

lemma ratelimit_allow_seen:
  assumes "\<exists>x\<in>set (rl_table rl (ratelimit_bucket S rl sa)). entry_matches sa x"
  shows "rl_table_num (snd (ratelimit_allow S now z rl sa)) = rl_table_num rl \<and>
         (\<exists>x\<in>set (rl_table (snd (ratelimit_allow S now z rl sa)) (ratelimit_bucket S rl sa)).
            entry_matches sa x)"
proof -
  obtain ret rs' where
    scan: "ratelimit_scan now sa (rl_table rl (ratelimit_bucket S rl sa)) = Some (ret, rs')"
    and seen: "\<exists>x\<in>set rs'. entry_matches sa x"
    using ratelimit_scan_seen [OF assms] by blast
  show ?thesis
    using assms seen by (simp add: ratelimit_allow_def Let_def scan)
qed

lemma ratelimit_allow_seq_seen:
  assumes "\<forall>c\<in>set cs. snd (snd c) = sa"
    and "\<exists>x\<in>set (rl_table rl (ratelimit_bucket S rl sa)). entry_matches sa x"
  shows "rl_table_num (snd (ratelimit_allow_seq S cs rl)) = rl_table_num rl"
  using assms
proof (induction cs arbitrary: rl)
  case Nil
  then show ?case by simp
next
  case (Cons c cs)
  obtain now z where c: "c = (now, z, sa)" using Cons.prems(1) by (cases c) auto
  let ?rl' = "snd (ratelimit_allow S now z rl sa)"
  have step: "rl_table_num ?rl' = rl_table_num rl"
    and seen: "\<exists>x\<in>set (rl_table ?rl' (ratelimit_bucket S ?rl' sa)). entry_matches sa x"
    using ratelimit_allow_seen [OF Cons.prems(2), of now z] by simp_all
  have "rl_table_num (snd (ratelimit_allow_seq S cs ?rl')) = rl_table_num ?rl'"
    using Cons.prems(1) seen by (intro Cons.IH) auto
  then show ?case
    by (simp only: c snd_ratelimit_allow_seq_Cons step)
qed

lemma find_ratelimit_allow_seq_other:
  assumes "\<And>r. entry_matches sa1 r \<Longrightarrow> \<not> entry_matches sa2 r"
    and "\<forall>c\<in>set cs. snd (snd c) = sa1"
  shows "find (entry_matches sa2) (rl_table (snd (ratelimit_allow_seq S cs rl)) b) =
         find (entry_matches sa2) (rl_table rl b)"
  using assms(2)
proof (induction cs arbitrary: rl)
  case Nil
  then show ?case by simp
next
  case (Cons c cs)
  obtain now z where c: "c = (now, z, sa1)" using Cons.prems by (cases c) auto
  have "find (entry_matches sa2)
          (rl_table (snd (ratelimit_allow_seq S cs (snd (ratelimit_allow S now z rl sa1)))) b) =
        find (entry_matches sa2) (rl_table (snd (ratelimit_allow S now z rl sa1)) b)"
    using Cons.prems by (intro Cons.IH) auto
  also have "\<dots> = find (entry_matches sa2) (rl_table rl b)"
    using assms(1) by (rule find_ratelimit_allow_other)
  finally show ?case
    by (simp only: c snd_ratelimit_allow_seq_Cons)
qed

lemma ratelimit_allow_seq_in6_prefix:
  assumes "sa_family sa1 = AF_INET6" "sa_family sa2 = AF_INET6"
    and "take IPV6_MASK_SIZE (sin6_addr sa1) = take IPV6_MASK_SIZE (sin6_addr sa2)"
  shows "ratelimit_allow_seq S (map (\<lambda>(zz, other). (now, zz, if other then sa2 else sa1)) cs) rl =
         ratelimit_allow_seq S (map (\<lambda>z. (now, z, sa1)) (map fst cs)) rl"
proof (induction cs arbitrary: rl)
  case Nil
  then show ?case by simp
next
  case (Cons c cs)
  obtain zz other where c: "c = (zz, other)" by (cases c)
  have "ratelimit_allow S now zz rl (if other then sa2 else sa1) = ratelimit_allow S now zz rl sa1"
    using ratelimit_allow_in6_prefix [OF assms, of S now zz rl] by simp
  then show ?case
    by (simp add: c Cons.IH)
qed

text \<open>Two sources with entries of their own: each has its own burst.\<close>

lemma burst_two_sources:
  assumes fam1: "sa_family sa1 = AF_INET \<or> sa_family sa1 = AF_INET6"
    and fam2: "sa_family sa2 = AF_INET \<or> sa_family sa2 = AF_INET6"
    and other: "\<And>r. entry_matches sa1 r \<Longrightarrow> \<not> entry_matches sa2 r"
    and unseen1: "\<forall>x\<in>set (rl_table rl (ratelimit_bucket S rl sa1)). \<not> entry_matches sa1 x"
    and unseen2: "\<forall>x\<in>set (rl_table rl (ratelimit_bucket S rl sa2)). \<not> entry_matches sa2 x"
    and room: "rl_table_num rl < RATELIMIT_SIZE_MAX - 1"
    and len1: "length zs1 = 5"
    and len2: "length zs2 = 5"
  shows "fst (ratelimit_allow_seq S
                (((now, True, sa1) # map (\<lambda>z. (now, z, sa1)) zs1) @
                 ((now, True, sa2) # map (\<lambda>z. (now, z, sa2)) zs2)) rl) =
           replicate 5 (Inr ()) @ [Inl ECONNREFUSED] @ replicate 5 (Inr ()) @ [Inl ECONNREFUSED]"
proof -
  let ?cs1 = "(now, True, sa1) # map (\<lambda>z. (now, z, sa1)) zs1"
  let ?rl1 = "snd (ratelimit_allow S now True rl sa1)"
  let ?rl' = "snd (ratelimit_allow_seq S ?cs1 rl)"
  let ?b1 = "ratelimit_bucket S rl sa1"
  have room1: "rl_table_num rl < RATELIMIT_SIZE_MAX"
    and room2: "rl_table_num rl + 1 < RATELIMIT_SIZE_MAX"
    using room unfolding RATELIMIT_SIZE_MAX_val by unat_arith+
  have first: "fst (ratelimit_allow_seq S ?cs1 rl) = replicate 5 (Inr ()) @ [Inl ECONNREFUSED]"
    using fam1 unseen1 room1 len1 by (rule burst_after_insert)
  have ins: "ratelimit_allow S now True rl sa1 =
      (Inr (),
       ratelimit_gc_schedule
         (rl\<lparr>rl_table_num := rl_table_num rl + 1,
             rl_table := (rl_table rl)(?b1 := new_entry now sa1 # rl_table rl ?b1)\<rparr>))"
    using fam1 unseen1 room1 by (rule ratelimit_allow_insert)
  have num1: "rl_table_num ?rl1 = rl_table_num rl + 1"
    by (simp add: ins)
  have seen1: "\<exists>x\<in>set (rl_table ?rl1 (ratelimit_bucket S ?rl1 sa1)). entry_matches sa1 x"
    using fam1 by (simp add: ins entry_matches_new_entry)
  have "rl_table_num (snd (ratelimit_allow_seq S (map (\<lambda>z. (now, z, sa1)) zs1) ?rl1)) =
      rl_table_num ?rl1"
    using seen1 by (intro ratelimit_allow_seq_seen [where sa = sa1]) auto
  then have num': "rl_table_num ?rl' = rl_table_num rl + 1"
    by (simp only: snd_ratelimit_allow_seq_Cons num1)
  have "find (entry_matches sa2) (rl_table ?rl' (ratelimit_bucket S rl sa2)) =
      find (entry_matches sa2) (rl_table rl (ratelimit_bucket S rl sa2))"
    using other by (rule find_ratelimit_allow_seq_other) auto
  also have "\<dots> = None"
    using unseen2 by (simp add: find_None_iff)
  finally have unseen': "\<forall>x\<in>set (rl_table ?rl' (ratelimit_bucket S ?rl' sa2)). \<not> entry_matches sa2 x"
    by (simp add: find_None_iff del: ratelimit_allow_seq.simps)
  have second: "fst (ratelimit_allow_seq S ((now, True, sa2) # map (\<lambda>z. (now, z, sa2)) zs2) ?rl') =
      replicate 5 (Inr ()) @ [Inl ECONNREFUSED]"
    using fam2 unseen' _ len2
  proof (rule burst_after_insert)
    show "rl_table_num ?rl' < RATELIMIT_SIZE_MAX"
      using room2 by (simp only: num')
  qed
  show ?thesis
    by (simp only: fst_ratelimit_allow_seq_append first second append_assoc)
qed

text \<open>
  Claim C7. Two \<^verbatim>\<open>AF_INET6\<close> addresses with the same first 8 bytes select the same
  bucket, have the same entries as theirs, and \<^verbatim>\<open>ratelimit_allow\<close> returns the same
  verdict and the same limiter for either of them, whatever their other bytes and
  their ports. They share one entry and one budget: when the prefix has no entry and
  the table has room, \<open>INITIATIONS_BURSTABLE + 1\<close> calls at one clock reading, each
  from either of the two addresses (\<open>first\<close> and \<open>cs\<close> say which), return 0
  \<open>INITIATIONS_BURSTABLE\<close> times and then \<^verbatim>\<open>ECONNREFUSED\<close>. Two \<^verbatim>\<open>AF_INET\<close> addresses
  of 4 bytes that differ never have the same entry as theirs, and a call for the first
  leaves the entry of the second, in every bucket \<open>b\<close>, as it was. They have a budget
  each: when neither has an entry and the table has room for two, the first address
  uses up its burst and is refused, and the second still has its whole burst.
\<close>

theorem ratelimit_prefix_aggregation:
  "(sa_family sa1 = AF_INET6 \<and> sa_family sa2 = AF_INET6 \<and>
    take 8 (sin6_addr sa1) = take 8 (sin6_addr sa2) \<longrightarrow>
      ratelimit_bucket S rl sa1 = ratelimit_bucket S rl sa2 \<and>
      entry_matches sa1 r = entry_matches sa2 r \<and>
      ratelimit_allow S now z rl sa1 = ratelimit_allow S now z rl sa2 \<and>
      ((\<forall>x\<in>set (rl_table rl (ratelimit_bucket S rl sa1)). \<not> entry_matches sa1 x) \<and>
       rl_table_num rl < RATELIMIT_SIZE_MAX \<and> length cs = unat INITIATIONS_BURSTABLE \<longrightarrow>
         fst (ratelimit_allow_seq S
                (map (\<lambda>(zz, other). (now, zz, if other then sa2 else sa1))
                   ((True, first) # cs)) rl) =
           replicate (unat INITIATIONS_BURSTABLE) (Inr ()) @ [Inl ECONNREFUSED])) \<and>
   (sa_family sa1 = AF_INET \<and> sa_family sa2 = AF_INET \<and>
    length (sin_addr sa1) = 4 \<and> length (sin_addr sa2) = 4 \<and> sin_addr sa1 \<noteq> sin_addr sa2 \<longrightarrow>
      (entry_matches sa1 r \<longrightarrow> \<not> entry_matches sa2 r) \<and>
      find (entry_matches sa2) (rl_table (snd (ratelimit_allow S now z rl sa1)) b) =
        find (entry_matches sa2) (rl_table rl b) \<and>
      ((\<forall>x\<in>set (rl_table rl (ratelimit_bucket S rl sa1)). \<not> entry_matches sa1 x) \<and>
       (\<forall>x\<in>set (rl_table rl (ratelimit_bucket S rl sa2)). \<not> entry_matches sa2 x) \<and>
       rl_table_num rl < RATELIMIT_SIZE_MAX - 1 \<and>
       length zs1 = unat INITIATIONS_BURSTABLE \<and> length zs2 = unat INITIATIONS_BURSTABLE \<longrightarrow>
         fst (ratelimit_allow_seq S
                (((now, True, sa1) # map (\<lambda>z. (now, z, sa1)) zs1) @
                 ((now, True, sa2) # map (\<lambda>z. (now, z, sa2)) zs2)) rl) =
           replicate (unat INITIATIONS_BURSTABLE) (Inr ()) @ [Inl ECONNREFUSED] @
           replicate (unat INITIATIONS_BURSTABLE) (Inr ()) @ [Inl ECONNREFUSED]))"
proof (intro conjI impI; (elim conjE)?)
  assume a: "sa_family sa1 = AF_INET6" "sa_family sa2 = AF_INET6"
    "take 8 (sin6_addr sa1) = take 8 (sin6_addr sa2)"
  then have t: "take IPV6_MASK_SIZE (sin6_addr sa1) = take IPV6_MASK_SIZE (sin6_addr sa2)"
    by (simp add: IPV6_MASK_SIZE_def)
  show "ratelimit_bucket S rl sa1 = ratelimit_bucket S rl sa2"
    using a(1,2) t AF_INET_neq by (simp add: ratelimit_bucket_def ratelimit_key_def)
  show "entry_matches sa1 r = entry_matches sa2 r"
    using a(1,2) t by (rule entry_matches_in6)
  show "ratelimit_allow S now z rl sa1 = ratelimit_allow S now z rl sa2"
    using a(1,2) t by (rule ratelimit_allow_in6_prefix)
  assume b: "\<forall>x\<in>set (rl_table rl (ratelimit_bucket S rl sa1)). \<not> entry_matches sa1 x"
    "rl_table_num rl < RATELIMIT_SIZE_MAX" "length cs = unat INITIATIONS_BURSTABLE"
  have "ratelimit_allow_seq S
      (map (\<lambda>(zz, other). (now, zz, if other then sa2 else sa1)) ((True, first) # cs)) rl =
    ratelimit_allow_seq S (map (\<lambda>z. (now, z, sa1)) (map fst ((True, first) # cs))) rl"
    using a(1,2) t by (rule ratelimit_allow_seq_in6_prefix)
  moreover have "fst (ratelimit_allow_seq S
      ((now, True, sa1) # map (\<lambda>z. (now, z, sa1)) (map fst cs)) rl) =
    replicate 5 (Inr ()) @ [Inl ECONNREFUSED]"
    using a(1) b by (intro burst_after_insert) (simp_all add: unat_INITIATIONS_BURSTABLE)
  ultimately show "fst (ratelimit_allow_seq S
      (map (\<lambda>(zz, other). (now, zz, if other then sa2 else sa1)) ((True, first) # cs)) rl) =
    replicate (unat INITIATIONS_BURSTABLE) (Inr ()) @ [Inl ECONNREFUSED]"
    by (simp add: unat_INITIATIONS_BURSTABLE del: ratelimit_allow_seq.simps)
next
  assume a: "sa_family sa1 = AF_INET" "sa_family sa2 = AF_INET"
    "length (sin_addr sa1) = 4" "length (sin_addr sa2) = 4" "sin_addr sa1 \<noteq> sin_addr sa2"
  then have t: "take IPV4_MASK_SIZE (sin_addr sa1) \<noteq> take IPV4_MASK_SIZE (sin_addr sa2)"
    by (simp add: IPV4_MASK_SIZE_def)
  have d: "\<not> entry_matches sa2 r'" if "entry_matches sa1 r'" for r'
    using a(1,2) t that by (rule entry_matches_in4_distinct)
  { assume "entry_matches sa1 r" then show "\<not> entry_matches sa2 r" by (rule d) }
  show "find (entry_matches sa2) (rl_table (snd (ratelimit_allow S now z rl sa1)) b) =
        find (entry_matches sa2) (rl_table rl b)"
    using d by (rule find_ratelimit_allow_other)
  assume b: "\<forall>x\<in>set (rl_table rl (ratelimit_bucket S rl sa1)). \<not> entry_matches sa1 x"
    "\<forall>x\<in>set (rl_table rl (ratelimit_bucket S rl sa2)). \<not> entry_matches sa2 x"
    "rl_table_num rl < RATELIMIT_SIZE_MAX - 1"
    "length zs1 = unat INITIATIONS_BURSTABLE" "length zs2 = unat INITIATIONS_BURSTABLE"
  have "fst (ratelimit_allow_seq S
                (((now, True, sa1) # map (\<lambda>z. (now, z, sa1)) zs1) @
                 ((now, True, sa2) # map (\<lambda>z. (now, z, sa2)) zs2)) rl) =
      replicate 5 (Inr ()) @ [Inl ECONNREFUSED] @ replicate 5 (Inr ()) @ [Inl ECONNREFUSED]"
    using a(1,2) d b by (intro burst_two_sources) (simp_all add: unat_INITIATIONS_BURSTABLE)
  then show "fst (ratelimit_allow_seq S
                (((now, True, sa1) # map (\<lambda>z. (now, z, sa1)) zs1) @
                 ((now, True, sa2) # map (\<lambda>z. (now, z, sa2)) zs2)) rl) =
      replicate (unat INITIATIONS_BURSTABLE) (Inr ()) @ [Inl ECONNREFUSED] @
      replicate (unat INITIATIONS_BURSTABLE) (Inr ()) @ [Inl ECONNREFUSED]"
    by (simp only: unat_INITIATIONS_BURSTABLE)
qed

theorem ratelimit_prefix_aggregation_witness:
  "let a6 = \<lparr>sa_family = AF_INET6, sin_addr = [], sin_port = [],
             sin6_addr = [32, 1, 13, 184, 0, 0, 0, 0, 0, 0, 0, 0, 0, 0, 0, 1],
             sin6_port = [0, 1]\<rparr>;
       b6 = \<lparr>sa_family = AF_INET6, sin_addr = [], sin_port = [],
             sin6_addr = [32, 1, 13, 184, 0, 0, 0, 0, 0, 0, 0, 0, 0, 0, 255, 255],
             sin6_port = [0, 2]\<rparr>;
       a4 = \<lparr>sa_family = AF_INET, sin_addr = [10, 0, 0, 1], sin_port = [0, 1],
             sin6_addr = [], sin6_port = []\<rparr>;
       b4 = \<lparr>sa_family = AF_INET, sin_addr = [10, 0, 0, 2], sin_port = [0, 1],
             sin6_addr = [], sin6_port = []\<rparr>;
       ea = \<lparr>r_af = AF_INET, r_u = [10, 0, 0, 1], r_last_time = 0, r_tokens = 0\<rparr>;
       eb = \<lparr>r_af = AF_INET, r_u = [10, 0, 0, 2], r_last_time = 3, r_tokens = 5\<rparr>;
       rl0 = \<lparr>rl_secret = [], rl_gc = False, rl_table = (\<lambda>b. []),
              rl_table_mask = 8191, rl_table_num = 0\<rparr>;
       rl = \<lparr>rl_secret = [], rl_gc = True, rl_table = (\<lambda>b. [])(12 := [eb]),
             rl_table_mask = 8191, rl_table_num = 1\<rparr>
   in take 8 (sin6_addr a6) = take 8 (sin6_addr b6) \<and>
      ratelimit_allow example_siphash13 7 True rl a6 =
        ratelimit_allow example_siphash13 7 True rl b6 \<and>
      rl_table rl0 (ratelimit_bucket example_siphash13 rl0 a6) = [] \<and>
      fst (ratelimit_allow_seq example_siphash13
             [(7, True, a6), (7, True, b6), (7, False, a6), (7, True, b6), (7, True, a6),
              (7, False, b6)] rl0) =
        [Inr (), Inr (), Inr (), Inr (), Inr (), Inl ECONNREFUSED] \<and>
      sin_addr a4 \<noteq> sin_addr b4 \<and>
      entry_matches a4 ea \<and> \<not> entry_matches b4 ea \<and>
      find (entry_matches b4) (rl_table (snd (ratelimit_allow example_siphash13 7 True rl a4)) 12)
        = Some eb \<and>
      rl_table rl0 (ratelimit_bucket example_siphash13 rl0 a4) = [] \<and>
      rl_table rl0 (ratelimit_bucket example_siphash13 rl0 b4) = [] \<and>
      fst (ratelimit_allow_seq example_siphash13
             [(7, True, a4), (7, True, a4), (7, True, a4), (7, True, a4), (7, True, a4),
              (7, True, a4),
              (7, True, b4), (7, True, b4), (7, True, b4), (7, True, b4), (7, True, b4),
              (7, True, b4)] rl0) =
        [Inr (), Inr (), Inr (), Inr (), Inr (), Inl ECONNREFUSED,
         Inr (), Inr (), Inr (), Inr (), Inr (), Inl ECONNREFUSED]"
  using ratelimit_prefix_aggregation [of
      "\<lparr>sa_family = AF_INET6, sin_addr = [], sin_port = [],
        sin6_addr = [32, 1, 13, 184, 0, 0, 0, 0, 0, 0, 0, 0, 0, 0, 0, 1],
        sin6_port = [0, 1]\<rparr>"
      "\<lparr>sa_family = AF_INET6, sin_addr = [], sin_port = [],
        sin6_addr = [32, 1, 13, 184, 0, 0, 0, 0, 0, 0, 0, 0, 0, 0, 255, 255],
        sin6_port = [0, 2]\<rparr>"
      example_siphash13
      "\<lparr>rl_secret = [], rl_gc = True,
        rl_table = (\<lambda>b. [])(12 := [\<lparr>r_af = AF_INET, r_u = [10, 0, 0, 2], r_last_time = 3,
                                    r_tokens = 5\<rparr>]),
        rl_table_mask = 8191, rl_table_num = 1\<rparr>"
      "\<lparr>r_af = AF_INET, r_u = [10, 0, 0, 1], r_last_time = 0, r_tokens = 0\<rparr>" 7 True]
    ratelimit_prefix_aggregation [of
      "\<lparr>sa_family = AF_INET6, sin_addr = [], sin_port = [],
        sin6_addr = [32, 1, 13, 184, 0, 0, 0, 0, 0, 0, 0, 0, 0, 0, 0, 1],
        sin6_port = [0, 1]\<rparr>"
      "\<lparr>sa_family = AF_INET6, sin_addr = [], sin_port = [],
        sin6_addr = [32, 1, 13, 184, 0, 0, 0, 0, 0, 0, 0, 0, 0, 0, 255, 255],
        sin6_port = [0, 2]\<rparr>"
      example_siphash13
      "\<lparr>rl_secret = [], rl_gc = False, rl_table = (\<lambda>b. []),
        rl_table_mask = 8191, rl_table_num = 0\<rparr>"
      "\<lparr>r_af = AF_INET, r_u = [10, 0, 0, 1], r_last_time = 0, r_tokens = 0\<rparr>" 7 True
      "[(True, True), (False, False), (True, True), (True, False), (False, True)]" False]
    ratelimit_prefix_aggregation [of
      "\<lparr>sa_family = AF_INET, sin_addr = [10, 0, 0, 1], sin_port = [0, 1],
        sin6_addr = [], sin6_port = []\<rparr>"
      "\<lparr>sa_family = AF_INET, sin_addr = [10, 0, 0, 2], sin_port = [0, 1],
        sin6_addr = [], sin6_port = []\<rparr>"
      example_siphash13
      "\<lparr>rl_secret = [], rl_gc = True,
        rl_table = (\<lambda>b. [])(12 := [\<lparr>r_af = AF_INET, r_u = [10, 0, 0, 2], r_last_time = 3,
                                    r_tokens = 5\<rparr>]),
        rl_table_mask = 8191, rl_table_num = 1\<rparr>"
      "\<lparr>r_af = AF_INET, r_u = [10, 0, 0, 1], r_last_time = 0, r_tokens = 0\<rparr>" 7 True
      "[]" False 12]
    ratelimit_prefix_aggregation [of
      "\<lparr>sa_family = AF_INET, sin_addr = [10, 0, 0, 1], sin_port = [0, 1],
        sin6_addr = [], sin6_port = []\<rparr>"
      "\<lparr>sa_family = AF_INET, sin_addr = [10, 0, 0, 2], sin_port = [0, 1],
        sin6_addr = [], sin6_port = []\<rparr>"
      example_siphash13
      "\<lparr>rl_secret = [], rl_gc = False, rl_table = (\<lambda>b. []),
        rl_table_mask = 8191, rl_table_num = 0\<rparr>"
      "\<lparr>r_af = AF_INET, r_u = [10, 0, 0, 1], r_last_time = 0, r_tokens = 0\<rparr>" 7 True
      "[]" False 12 "[True, True, True, True, True]" "[True, True, True, True, True]"]
  by (simp add: Let_def entry_matches_def bcmp_def IPV4_MASK_SIZE_def IPV6_MASK_SIZE_def
      AF_INET_def AF_INET6_def RATELIMIT_SIZE_MAX_val unat_INITIATIONS_BURSTABLE replicate_5
      del: ratelimit_allow_seq.simps)

subsection \<open>The elapsed time\<close>

lemma token_bucket_unat:
  assumes last: "0 \<le> sint (r_last_time r)"
    and mono: "sint (r_last_time r) \<le> sint now"
    and cap: "r_tokens r \<le> TOKEN_MAX"
  shows "unat (r_tokens r + (now - r_last_time r)) =
           unat (r_tokens r) + nat (sint now - sint (r_last_time r))"
proof -
  have now0: "0 \<le> sint now" using last mono by simp
  have l: "uint (r_last_time r) = sint (r_last_time r)"
    using last by (rule sint_nonneg_uint)
  have n: "uint now = sint now" "uint now < 2 ^ 63"
    using now0 by (rule sint_nonneg_uint, rule sint_nonneg_uint_less)
  have d: "uint (now - r_last_time r) = sint now - sint (r_last_time r)"
    using mono uint_sub_lem [of "r_last_time r" now] by (simp only: l n(1))
  have t: "uint (r_tokens r) \<le> 1073741820"
    using cap by (simp add: word_le_def TOKEN_MAX_val)
  have "uint (r_tokens r) + uint (now - r_last_time r) < 2 ^ 64"
    using t n(2) d last by (simp add: n(1) [symmetric])
  then have "uint (r_tokens r + (now - r_last_time r)) =
      uint (r_tokens r) + uint (now - r_last_time r)"
    using uint_add_lem [of "r_tokens r" "now - r_last_time r"] by simp
  then have "uint (r_tokens r + (now - r_last_time r)) =
      uint (r_tokens r) + (sint now - sint (r_last_time r))"
    by (simp only: d)
  then have "nat (uint (r_tokens r + (now - r_last_time r))) =
      nat (uint (r_tokens r)) + nat (sint now - sint (r_last_time r))"
    using mono by (simp only: nat_add_distrib [symmetric] uint_ge_0 diff_ge_0_iff_ge)
  then show ?thesis by simp
qed

text \<open>
  Claim C8, as the code has it. \<^verbatim>\<open>ratelimit_allow\<close> does not clamp the elapsed time:
  \<open>diff = now - r_last_time\<close> is a signed 64-bit difference that is added to the
  unsigned \<open>r_tokens\<close> modulo \<open>2 ^ 64\<close>. With the entry's \<open>r_last_time\<close> at 1 and no
  tokens, a call that reads the clock at 0 wraps to \<open>2 ^ 64 - 1\<close>, is capped at
  \<open>TOKEN_MAX\<close> and stores \<open>TOKEN_MAX - INITIATION_COST = 858993456\<close> tokens, where an
  elapsed time of 0 stores 0.
\<close>

theorem token_bucket_backward_clock_counterexample:
  "sint (0 :: 64 word) < sint (1 :: 64 word) \<and>
   r_tokens (snd (token_bucket 0
      \<lparr>r_af = AF_INET, r_u = [10, 0, 0, 1], r_last_time = 1, r_tokens = 0\<rparr>)) = 858993456 \<and>
   r_tokens (snd (token_bucket 1
      \<lparr>r_af = AF_INET, r_u = [10, 0, 0, 1], r_last_time = 1, r_tokens = 0\<rparr>)) = 0"
  by (simp add: token_bucket_def Let_def TOKEN_MAX_val INITIATION_COST_val)

text \<open>
  Claim C8, amended. When the clock has not gone backward since the entry was last
  touched (\<open>0 \<le> r_last_time \<le> now\<close>, read as signed) and the entry holds at most
  \<open>TOKEN_MAX\<close> tokens, nothing wraps: the stored token count is
  \<open>min (r_tokens + (now - r_last_time)) TOKEN_MAX\<close> in unbounded arithmetic, less
  \<open>INITIATION_COST\<close> when that is at least \<open>INITIATION_COST\<close>.
\<close>

theorem token_bucket_monotonic_clock:
  assumes last: "0 \<le> sint (r_last_time r)"
    and mono: "sint (r_last_time r) \<le> sint now"
    and cap: "r_tokens r \<le> TOKEN_MAX"
  shows "unat (r_tokens (snd (token_bucket now r))) =
           (let dt = nat (sint now - sint (r_last_time r));
                tokens = min (unat (r_tokens r) + dt) (unat TOKEN_MAX)
            in if unat INITIATION_COST \<le> tokens then tokens - unat INITIATION_COST else tokens)"
proof -
  let ?w = "r_tokens r + (now - r_last_time r)"
  let ?t = "if TOKEN_MAX < ?w then TOKEN_MAX else ?w"
  have w: "unat ?w = unat (r_tokens r) + nat (sint now - sint (r_last_time r))"
    using assms by (rule token_bucket_unat)
  have t: "unat ?t = min (unat (r_tokens r) + nat (sint now - sint (r_last_time r))) (unat TOKEN_MAX)"
    by (simp add: word_less_nat_alt w min_def)
  have res: "r_tokens (snd (token_bucket now r)) =
      (if INITIATION_COST \<le> ?t then ?t - INITIATION_COST else ?t)"
    by (simp add: token_bucket_def Let_def)
  show ?thesis
    unfolding res Let_def t [symmetric]
    by (simp add: word_le_nat_alt unat_sub)
qed

theorem token_bucket_monotonic_clock_witness:
  "let r = \<lparr>r_af = AF_INET, r_u = [10, 0, 0, 1], r_last_time = 100, r_tokens = 214748300\<rparr>
   in 0 \<le> sint (r_last_time r) \<and> sint (r_last_time r) \<le> sint (200 :: 64 word) \<and>
      r_tokens r \<le> TOKEN_MAX \<and>
      unat (r_tokens (snd (token_bucket 200 r))) = 36"
  using token_bucket_monotonic_clock [of
      "\<lparr>r_af = AF_INET, r_u = [10, 0, 0, 1], r_last_time = 100, r_tokens = 214748300\<rparr>" 200]
  by (simp add: Let_def TOKEN_MAX_val INITIATION_COST_val)

subsection \<open>The Maker\<close>

lemma max_age_minus_latency: "COOKIE_SECRET_MAX_AGE - COOKIE_SECRET_LATENCY = 115"
  by (simp add: COOKIE_SECRET_MAX_AGE_def COOKIE_SECRET_LATENCY_def)

lemma sint_SBT_1S: "sint SBT_1S = 4294967296"
  by (simp add: SBT_1S_def)

lemma cookie_timer_expired_maker:
  assumes "nstosbt 0 = 0" and "sint timer + 115 * sint SBT_1S < 2 ^ 63"
  shows "cookie_timer_expired nstosbt now timer 115 0 = Inr () \<longleftrightarrow>
           sint now - sint timer \<le> 115 * sint SBT_1S"
proof -
  have lo: "- (2 ^ 63) \<le> sint timer" using sint_ge [of timer] by simp
  have "sint (timer + 493921239040) = sint timer + sint (493921239040 :: 64 word)"
    using assms(2) lo by (intro sint_add_no_overflow) (simp_all add: sint_SBT_1S)
  then have s: "sint (timer + 493921239040) = sint timer + 493921239040" by simp
  show ?thesis
    by (simp add: cookie_timer_expired_def assms(1) SBT_1S_def word_sless_alt s not_less)
qed

lemma cookie_maker_mac_cases:
  "cookie_maker_mac blake2s nstosbt now cp cm buf =
     (if cp_lock cp = Wlocked then None
      else
        Some (cp\<lparr>cp_mac1_last := take COOKIE_MAC_SIZE (blake2s COOKIE_MAC_SIZE
                    (take COOKIE_KEY_SIZE (cp_mac1_key cp)) buf),
                  cp_mac1_valid := True\<rparr>,
              if cookie_timer_expired nstosbt now (cp_birthdate cp)
                   (COOKIE_SECRET_MAX_AGE - COOKIE_SECRET_LATENCY) 0 = Inr ()
              then \<lparr>mac1 = blake2s COOKIE_MAC_SIZE (take COOKIE_KEY_SIZE (cp_mac1_key cp)) buf,
                    mac2 = blake2s COOKIE_MAC_SIZE (take COOKIE_COOKIE_SIZE (cp_cookie cp))
                      (buf @ take COOKIE_MAC_SIZE
                         (blake2s COOKIE_MAC_SIZE (take COOKIE_KEY_SIZE (cp_mac1_key cp)) buf))\<rparr>
              else \<lparr>mac1 = blake2s COOKIE_MAC_SIZE (take COOKIE_KEY_SIZE (cp_mac1_key cp)) buf,
                    mac2 = replicate COOKIE_MAC_SIZE 0\<rparr>))"
  by (cases "cp_lock cp")
    (simp_all add: cookie_maker_mac_def cookie_macs_mac1_def cookie_macs_mac2_def
      blake2s_init_key_def blake2s_update_def blake2s_final_def memcpy_def bzero_def Let_def)

text \<open>
  Claim C5, as the code has it. The test of \<^verbatim>\<open>cookie_timer_expired\<close> is
  \<open>now > timer + sec\<close>: a cookie received exactly 115 seconds ago has not expired, and
  \<^verbatim>\<open>cookie_maker_mac\<close> computes \<open>mac2\<close> with it, where the claim has \<open>mac2\<close> zeroed.
\<close>

theorem cookie_maker_mac_boundary_counterexample:
  "\<not> sint (493921239040 :: 64 word) - sint (0 :: 64 word) < 115 * sint SBT_1S \<and>
   map_option (mac2 \<circ> snd)
     (cookie_maker_mac example_blake2s example_nstosbt 493921239040
        \<lparr>cp_mac1_key = replicate 32 1, cp_cookie_key = replicate 32 2, cp_lock = Unlocked,
         cp_cookie = replicate 16 3, cp_birthdate = 0, cp_mac1_valid = False,
         cp_mac1_last = replicate 16 0\<rparr>
        \<lparr>mac1 = replicate 16 0, mac2 = replicate 16 0\<rparr> [104, 105]) =
     Some (example_blake2s 16 (replicate 16 3)
             ([104, 105] @ take 16 (example_blake2s 16 (replicate 32 1) [104, 105]))) \<and>
   example_blake2s 16 (replicate 16 3)
     ([104, 105] @ take 16 (example_blake2s 16 (replicate 32 1) [104, 105])) \<noteq> bzero 16"
  by (simp add: cookie_maker_mac_cases cookie_timer_expired_def example_nstosbt_def
      max_age_minus_latency SBT_1S_def COOKIE_MAC_SIZE_def COOKIE_KEY_SIZE_def
      COOKIE_COOKIE_SIZE_def example_blake2s_def bzero_def)

text \<open>
  Claim C5, amended. A call of \<^verbatim>\<open>cookie_maker_mac\<close> that finds \<open>cp_lock\<close> not held
  exclusively returns, and it computes \<open>mac2\<close> as the MAC of \<open>buf\<close> and the new \<open>mac1\<close>
  under the stored cookie exactly when
  \<open>now - cp_birthdate \<le> SECRET_MAX_AGE - SECRET_LATENCY\<close>, that is when at most 115
  seconds have passed since the cookie was received, and zeroes \<open>mac2\<close> otherwise.
  \<open>nstosbt 0 = 0\<close>, and the birthdate is more than 115 seconds before the end of the
  range of \<^verbatim>\<open>sbintime_t\<close>.
\<close>

theorem cookie_maker_mac_mac2:
  assumes "nstosbt 0 = 0"
    and "sint (cp_birthdate cp) + 115 * sint SBT_1S < 2 ^ 63"
    and "cp_lock cp \<noteq> Wlocked"
  shows "uint (COOKIE_SECRET_MAX_AGE - COOKIE_SECRET_LATENCY) = 115 \<and>
         map_option (mac2 \<circ> snd) (cookie_maker_mac blake2s nstosbt now cp cm buf) =
           Some (if sint now - sint (cp_birthdate cp) \<le> 115 * sint SBT_1S
                 then blake2s 16 (take 16 (cp_cookie cp))
                        (buf @ take 16 (blake2s 16 (take 32 (cp_mac1_key cp)) buf))
                 else replicate 16 0)"
  using assms(3)
  by (simp add: cookie_maker_mac_cases max_age_minus_latency
      cookie_timer_expired_maker [of nstosbt "cp_birthdate cp", OF assms(1,2)]
      COOKIE_MAC_SIZE_def COOKIE_KEY_SIZE_def COOKIE_COOKIE_SIZE_def)

theorem cookie_maker_mac_mac2_witness:
  "example_nstosbt 0 = 0 \<and>
   sint (0 :: 64 word) + 115 * sint SBT_1S < 2 ^ 63 \<and>
   map_option (mac2 \<circ> snd)
     (cookie_maker_mac example_blake2s example_nstosbt 493921239040
        \<lparr>cp_mac1_key = replicate 32 1, cp_cookie_key = replicate 32 2, cp_lock = Unlocked,
         cp_cookie = replicate 16 3, cp_birthdate = 0, cp_mac1_valid = False,
         cp_mac1_last = replicate 16 0\<rparr>
        \<lparr>mac1 = replicate 16 9, mac2 = replicate 16 9\<rparr> [104, 105]) =
     Some (replicate 16 35) \<and>
   map_option (mac2 \<circ> snd)
     (cookie_maker_mac example_blake2s example_nstosbt 493921239041
        \<lparr>cp_mac1_key = replicate 32 1, cp_cookie_key = replicate 32 2, cp_lock = Unlocked,
         cp_cookie = replicate 16 3, cp_birthdate = 0, cp_mac1_valid = False,
         cp_mac1_last = replicate 16 0\<rparr>
        \<lparr>mac1 = replicate 16 9, mac2 = replicate 16 9\<rparr> [104, 105]) =
     Some (replicate 16 0)"
proof -
  have n: "example_nstosbt 0 = 0"
    by (simp add: example_nstosbt_def)
  have r: "sint (cp_birthdate
      \<lparr>cp_mac1_key = replicate 32 1, cp_cookie_key = replicate 32 2, cp_lock = Unlocked,
       cp_cookie = replicate 16 3, cp_birthdate = 0, cp_mac1_valid = False,
       cp_mac1_last = replicate 16 0\<rparr>) + 115 * sint SBT_1S < 2 ^ 63"
    by (simp add: sint_SBT_1S)
  have l: "cp_lock
      \<lparr>cp_mac1_key = replicate 32 1, cp_cookie_key = replicate 32 2, cp_lock = Unlocked,
       cp_cookie = replicate 16 3, cp_birthdate = 0, cp_mac1_valid = False,
       cp_mac1_last = replicate 16 0\<rparr> \<noteq> Wlocked"
    by simp
  show ?thesis
    using n
      cookie_maker_mac_mac2 [of example_nstosbt
        "\<lparr>cp_mac1_key = replicate 32 1, cp_cookie_key = replicate 32 2, cp_lock = Unlocked,
          cp_cookie = replicate 16 3, cp_birthdate = 0, cp_mac1_valid = False,
          cp_mac1_last = replicate 16 0\<rparr>"
        example_blake2s 493921239040
        "\<lparr>mac1 = replicate 16 9, mac2 = replicate 16 9\<rparr>" "[104, 105]", OF n r l]
      cookie_maker_mac_mac2 [of example_nstosbt
        "\<lparr>cp_mac1_key = replicate 32 1, cp_cookie_key = replicate 32 2, cp_lock = Unlocked,
          cp_cookie = replicate 16 3, cp_birthdate = 0, cp_mac1_valid = False,
          cp_mac1_last = replicate 16 0\<rparr>"
        example_blake2s 493921239041
        "\<lparr>mac1 = replicate 16 9, mac2 = replicate 16 9\<rparr>" "[104, 105]", OF n r l]
    by (simp add: sint_SBT_1S example_blake2s_def)
qed

lemma cookie_maker_consume_payload_cases:
  "cookie_maker_consume_payload decrypt now cp nonce ecookie =
     (if cp_lock cp \<noteq> Unlocked then None
      else if \<not> cp_mac1_valid cp then Some (Inl ETIMEDOUT, cp)
      else case decrypt (take COOKIE_ENCRYPTED_SIZE ecookie)
                  (take COOKIE_MAC_SIZE (cp_mac1_last cp)) nonce (cp_cookie_key cp) of
             None \<Rightarrow> Some (Inl EINVAL, cp)
           | Some cookie \<Rightarrow>
               Some (Inr (), cp\<lparr>cp_cookie := take COOKIE_COOKIE_SIZE cookie,
                                 cp_birthdate := now, cp_mac1_valid := False\<rparr>))"
  by (cases "cp_lock cp")
    (auto simp: cookie_maker_consume_payload_def Let_def memcpy_def split: option.splits)

text \<open>
  Claim C6. A call of \<^verbatim>\<open>cookie_maker_consume_payload\<close> that returns 0 leaves
  \<open>cp_mac1_valid\<close> false, so a second call on the Maker it leaves, with any nonce and
  payload at any time, returns \<^verbatim>\<open>ETIMEDOUT\<close> and changes nothing of the Maker, the
  stored cookie and its birthdate included.
\<close>

theorem cookie_maker_consume_payload_twice:
  assumes "cookie_maker_consume_payload decrypt now cp nonce ecookie = Some (Inr (), cp')"
  shows "\<not> cp_mac1_valid cp' \<and>
         cookie_maker_consume_payload decrypt' now' cp' nonce' ecookie' =
           Some (Inl ETIMEDOUT, cp')"
proof -
  from assms have "cp_lock cp' = Unlocked \<and> \<not> cp_mac1_valid cp'"
    by (auto simp: cookie_maker_consume_payload_cases split: if_splits option.splits)
  then show ?thesis
    by (simp add: cookie_maker_consume_payload_cases)
qed

theorem cookie_maker_consume_payload_twice_witness:
  "cookie_maker_consume_payload example_decrypt 77
     \<lparr>cp_mac1_key = replicate 32 1, cp_cookie_key = replicate 32 2, cp_lock = Unlocked,
      cp_cookie = replicate 16 0, cp_birthdate = 0, cp_mac1_valid = True,
      cp_mac1_last = replicate 16 5\<rparr>
     (replicate 24 9) (replicate 16 3 @ replicate 16 5) =
     Some (Inr (),
       \<lparr>cp_mac1_key = replicate 32 1, cp_cookie_key = replicate 32 2, cp_lock = Unlocked,
        cp_cookie = replicate 16 3, cp_birthdate = 77, cp_mac1_valid = False,
        cp_mac1_last = replicate 16 5\<rparr>) \<and>
   cookie_maker_consume_payload example_decrypt 78
     \<lparr>cp_mac1_key = replicate 32 1, cp_cookie_key = replicate 32 2, cp_lock = Unlocked,
      cp_cookie = replicate 16 3, cp_birthdate = 77, cp_mac1_valid = False,
      cp_mac1_last = replicate 16 5\<rparr>
     (replicate 24 9) (replicate 16 4 @ replicate 16 5) =
     Some (Inl ETIMEDOUT,
       \<lparr>cp_mac1_key = replicate 32 1, cp_cookie_key = replicate 32 2, cp_lock = Unlocked,
        cp_cookie = replicate 16 3, cp_birthdate = 77, cp_mac1_valid = False,
        cp_mac1_last = replicate 16 5\<rparr>)"
proof -
  have first: "cookie_maker_consume_payload example_decrypt 77
     \<lparr>cp_mac1_key = replicate 32 1, cp_cookie_key = replicate 32 2, cp_lock = Unlocked,
      cp_cookie = replicate 16 0, cp_birthdate = 0, cp_mac1_valid = True,
      cp_mac1_last = replicate 16 5\<rparr>
     (replicate 24 9) (replicate 16 3 @ replicate 16 5) =
     Some (Inr (),
       \<lparr>cp_mac1_key = replicate 32 1, cp_cookie_key = replicate 32 2, cp_lock = Unlocked,
        cp_cookie = replicate 16 3, cp_birthdate = 77, cp_mac1_valid = False,
        cp_mac1_last = replicate 16 5\<rparr>)"
    by (simp add: cookie_maker_consume_payload_cases example_decrypt_def
        COOKIE_ENCRYPTED_SIZE_def COOKIE_COOKIE_SIZE_def COOKIE_MAC_SIZE_def)
  show ?thesis
    using first cookie_maker_consume_payload_twice [OF first, of example_decrypt 78
        "replicate 24 9" "replicate 16 4 @ replicate 16 5"]
    by simp
qed

text \<open>
  Claim C10. A call of \<^verbatim>\<open>cookie_maker_consume_payload\<close> that returns an error returns
  \<^verbatim>\<open>ETIMEDOUT\<close>, when \<open>cp_mac1_valid\<close> is false, or \<^verbatim>\<open>EINVAL\<close>, when it is true and
  the decryption fails, and leaves the whole Maker as it was, \<open>cp_cookie\<close>,
  \<open>cp_birthdate\<close> and \<open>cp_mac1_valid\<close> included. After \<^verbatim>\<open>EINVAL\<close> the binding is still
  there: a later reply that decrypts under the same \<open>cp_mac1_last\<close> is consumed.
\<close>

theorem cookie_maker_consume_payload_failure:
  assumes "cookie_maker_consume_payload decrypt now cp nonce ecookie = Some (Inl e, cp')"
  shows "cp' = cp \<and>
         (e = ETIMEDOUT \<and> \<not> cp_mac1_valid cp \<or> e = EINVAL \<and> cp_mac1_valid cp) \<and>
         (e = EINVAL \<and>
          decrypt (take COOKIE_ENCRYPTED_SIZE ecookie2) (take COOKIE_MAC_SIZE (cp_mac1_last cp))
            nonce2 (cp_cookie_key cp) = Some cookie \<longrightarrow>
          cookie_maker_consume_payload decrypt now2 cp' nonce2 ecookie2 =
            Some (Inr (), cp\<lparr>cp_cookie := take COOKIE_COOKIE_SIZE cookie,
                              cp_birthdate := now2, cp_mac1_valid := False\<rparr>))"
  using assms
  by (auto simp: cookie_maker_consume_payload_cases split: if_splits option.splits)

theorem cookie_maker_consume_payload_failure_witness:
  "cookie_maker_consume_payload example_decrypt 77
     \<lparr>cp_mac1_key = replicate 32 1, cp_cookie_key = replicate 32 2, cp_lock = Unlocked,
      cp_cookie = replicate 16 0, cp_birthdate = 0, cp_mac1_valid = True,
      cp_mac1_last = replicate 16 5\<rparr>
     (replicate 24 9) (replicate 16 3 @ replicate 16 6) =
     Some (Inl EINVAL,
       \<lparr>cp_mac1_key = replicate 32 1, cp_cookie_key = replicate 32 2, cp_lock = Unlocked,
        cp_cookie = replicate 16 0, cp_birthdate = 0, cp_mac1_valid = True,
        cp_mac1_last = replicate 16 5\<rparr>) \<and>
   cookie_maker_consume_payload example_decrypt 78
     \<lparr>cp_mac1_key = replicate 32 1, cp_cookie_key = replicate 32 2, cp_lock = Unlocked,
      cp_cookie = replicate 16 0, cp_birthdate = 0, cp_mac1_valid = True,
      cp_mac1_last = replicate 16 5\<rparr>
     (replicate 24 9) (replicate 16 3 @ replicate 16 5) =
     Some (Inr (),
       \<lparr>cp_mac1_key = replicate 32 1, cp_cookie_key = replicate 32 2, cp_lock = Unlocked,
        cp_cookie = replicate 16 3, cp_birthdate = 78, cp_mac1_valid = False,
        cp_mac1_last = replicate 16 5\<rparr>)"
proof -
  have first: "cookie_maker_consume_payload example_decrypt 77
     \<lparr>cp_mac1_key = replicate 32 1, cp_cookie_key = replicate 32 2, cp_lock = Unlocked,
      cp_cookie = replicate 16 0, cp_birthdate = 0, cp_mac1_valid = True,
      cp_mac1_last = replicate 16 5\<rparr>
     (replicate 24 9) (replicate 16 3 @ replicate 16 6) =
     Some (Inl EINVAL,
       \<lparr>cp_mac1_key = replicate 32 1, cp_cookie_key = replicate 32 2, cp_lock = Unlocked,
        cp_cookie = replicate 16 0, cp_birthdate = 0, cp_mac1_valid = True,
        cp_mac1_last = replicate 16 5\<rparr>)"
    by (simp add: cookie_maker_consume_payload_cases example_decrypt_def
        COOKIE_ENCRYPTED_SIZE_def COOKIE_COOKIE_SIZE_def COOKIE_MAC_SIZE_def)
  show ?thesis
    using first cookie_maker_consume_payload_failure [OF first, of
        "replicate 16 3 @ replicate 16 5" "replicate 24 9" "replicate 16 3" 78]
    by (simp add: example_decrypt_def COOKIE_ENCRYPTED_SIZE_def COOKIE_COOKIE_SIZE_def
        COOKIE_MAC_SIZE_def)
qed

subsection \<open>The lock of the Maker\<close>

text \<open>
  Claim C9. \<^verbatim>\<open>cookie_maker_consume_payload\<close> takes \<open>cp_lock\<close> with \<^verbatim>\<open>rw_wlock\<close>, but
  \<^verbatim>\<open>cookie_maker_mac\<close> takes it with \<^verbatim>\<open>rw_rlock\<close>, so it does not hold the lock
  exclusively. While another thread holds the lock shared (\<open>Rlocked 0\<close>: one reader),
  as a thread inside \<^verbatim>\<open>cookie_maker_mac\<close> does, a call of \<^verbatim>\<open>cookie_maker_mac\<close> does
  not wait: it runs as a second reader and writes \<open>cp_mac1_last\<close> and
  \<open>cp_mac1_valid\<close>. A call of \<^verbatim>\<open>cookie_maker_consume_payload\<close> in that state waits.
\<close>

theorem cookie_maker_mac_shared_lock:
  "rw_rlock (Rlocked 0) = Some (Rlocked 1) \<and>
   map_option fst
     (cookie_maker_mac blake2s nstosbt now
        (cp\<lparr>cp_lock := Rlocked 0, cp_mac1_valid := False\<rparr>) cm buf) =
     Some (cp\<lparr>cp_lock := Rlocked 0,
              cp_mac1_valid := True,
              cp_mac1_last := take COOKIE_MAC_SIZE
                (blake2s COOKIE_MAC_SIZE (take COOKIE_KEY_SIZE (cp_mac1_key cp)) buf)\<rparr>) \<and>
   cookie_maker_consume_payload decrypt now (cp\<lparr>cp_lock := Rlocked 0\<rparr>) nonce ecookie = None"
  by (simp add: cookie_maker_mac_def cookie_maker_consume_payload_def cookie_macs_mac1_def
      blake2s_init_key_def blake2s_update_def blake2s_final_def memcpy_def Let_def)

subsection \<open>The Checker\<close>

lemma ratelimit_allow_verdict:
  "fst (ratelimit_allow siphash13 now z rl sa) = Inr () \<or>
   fst (ratelimit_allow siphash13 now z rl sa) = Inl ECONNREFUSED"
proof -
  have scan: "ret = Inr () \<or> ret = Inl ECONNREFUSED"
    if "ratelimit_scan now sa rs = Some (ret, rs')" for rs ret rs'
    using that
    by (induction rs arbitrary: rs')
      (auto simp: token_bucket_def Let_def split: if_splits option.splits)
  show ?thesis
    by (auto simp: ratelimit_allow_def Let_def split: option.splits dest: scan)
qed

text \<open>
  Claim C2. \<^verbatim>\<open>cookie_checker_validate_macs\<close> returns \<^verbatim>\<open>EINVAL\<close> when the 16 bytes of
  the \<open>mac1\<close> recomputed over \<open>buf\<close> differ from \<open>cm.mac1\<close>; otherwise 0 when \<open>busy\<close> is 0;
  otherwise \<^verbatim>\<open>EAGAIN\<close> when the 16 bytes of the \<open>mac2\<close> recomputed under the cookie of
  \<open>sa\<close> differ from \<open>cm.mac2\<close>; otherwise what \<^verbatim>\<open>ratelimit_allow\<close> returns for the
  limiter of the family of \<open>sa\<close>, which is 0 or \<^verbatim>\<open>ECONNREFUSED\<close>, and \<^verbatim>\<open>EAFNOSUPPORT\<close>
  when the family is neither \<^verbatim>\<open>AF_INET\<close> nor \<^verbatim>\<open>AF_INET6\<close>.
\<close>

theorem cookie_checker_validate_macs_verdict:
  "fst (cookie_checker_validate_macs blake2s nstosbt siphash13 k cc rl4 rl6 cm buf busy sa) =
     (if take 16 (blake2s 16 (take 32 (cc_mac1_key cc)) buf) \<noteq> take 16 (mac1 cm)
      then Inl EINVAL
      else if busy = 0 then Inr ()
      else if take 16 (blake2s 16
                (take 16 (snd (cookie_checker_make_cookie blake2s nstosbt (k_t_expired k)
                   (k_t_refresh k) (k_rnd_secret k) (k_rnd_cookie k) cc sa)))
                (buf @ take 16 (blake2s 16 (take 32 (cc_mac1_key cc)) buf)))
              \<noteq> take 16 (mac2 cm)
      then Inl EAGAIN
      else if sa_family sa = AF_INET
      then fst (ratelimit_allow siphash13 (k_t_allow k) (k_zalloc_ok k) rl4 sa)
      else if sa_family sa = AF_INET6
      then fst (ratelimit_allow siphash13 (k_t_allow k) (k_zalloc_ok k) rl6 sa)
      else Inl EAFNOSUPPORT) \<and>
   (fst (ratelimit_allow siphash13 now z rl sa) = Inr () \<or>
    fst (ratelimit_allow siphash13 now z rl sa) = Inl ECONNREFUSED)"
proof -
  have "fst (cookie_checker_validate_macs blake2s nstosbt siphash13 k cc rl4 rl6 cm buf busy sa) =
     (if take 16 (blake2s 16 (take 32 (cc_mac1_key cc)) buf) \<noteq> take 16 (mac1 cm)
      then Inl EINVAL
      else if busy = 0 then Inr ()
      else if take 16 (blake2s 16
                (take 16 (snd (cookie_checker_make_cookie blake2s nstosbt (k_t_expired k)
                   (k_t_refresh k) (k_rnd_secret k) (k_rnd_cookie k) cc sa)))
                (buf @ take 16 (blake2s 16 (take 32 (cc_mac1_key cc)) buf)))
              \<noteq> take 16 (mac2 cm)
      then Inl EAGAIN
      else if sa_family sa = AF_INET
      then fst (ratelimit_allow siphash13 (k_t_allow k) (k_zalloc_ok k) rl4 sa)
      else if sa_family sa = AF_INET6
      then fst (ratelimit_allow siphash13 (k_t_allow k) (k_zalloc_ok k) rl6 sa)
      else Inl EAFNOSUPPORT)"
    by (simp add: cookie_checker_validate_macs_def cookie_macs_mac1_def cookie_macs_mac2_def
        blake2s_init_key_def blake2s_update_def blake2s_final_def timingsafe_bcmp_def
        COOKIE_MAC_SIZE_def COOKIE_KEY_SIZE_def COOKIE_COOKIE_SIZE_def Let_def
        split: prod.splits)
  then show ?thesis
    using ratelimit_allow_verdict [of siphash13 now z rl sa] by simp
qed

theorem cookie_checker_validate_macs_verdict_witness:
  "fst (cookie_checker_validate_macs example_blake2s example_nstosbt example_siphash13
     \<lparr>k_t_expired = 10, k_t_refresh = 10, k_rnd_secret = replicate 32 8,
      k_rnd_cookie = replicate 16 9, k_t_allow = 10, k_zalloc_ok = True\<rparr>
     \<lparr>cc_mac1_key = replicate 32 1, cc_cookie_key = replicate 32 2,
      cc_secret_birthdate = 0, cc_secret = replicate 32 7\<rparr>
     \<lparr>rl_secret = [], rl_gc = False, rl_table = (\<lambda>b. []), rl_table_mask = 8191,
      rl_table_num = 0\<rparr>
     \<lparr>rl_secret = [], rl_gc = False, rl_table = (\<lambda>b. []), rl_table_mask = 8191,
      rl_table_num = 0\<rparr>
     \<lparr>mac1 = replicate 16 35, mac2 = replicate 16 35\<rparr> [104, 105] 1
     \<lparr>sa_family = AF_INET, sin_addr = [10, 0, 0, 1], sin_port = [0, 1],
      sin6_addr = [], sin6_port = []\<rparr>) = Inr ()"
  using cookie_checker_validate_macs_verdict [of example_blake2s example_nstosbt
     example_siphash13
     "\<lparr>k_t_expired = 10, k_t_refresh = 10, k_rnd_secret = replicate 32 8,
      k_rnd_cookie = replicate 16 9, k_t_allow = 10, k_zalloc_ok = True\<rparr>"
     "\<lparr>cc_mac1_key = replicate 32 1, cc_cookie_key = replicate 32 2,
      cc_secret_birthdate = 0, cc_secret = replicate 32 7\<rparr>"
     "\<lparr>rl_secret = [], rl_gc = False, rl_table = (\<lambda>b. []), rl_table_mask = 8191,
      rl_table_num = 0\<rparr>"
     "\<lparr>rl_secret = [], rl_gc = False, rl_table = (\<lambda>b. []), rl_table_mask = 8191,
      rl_table_num = 0\<rparr>"
     "\<lparr>mac1 = replicate 16 35, mac2 = replicate 16 35\<rparr>" "[104, 105]" 1
     "\<lparr>sa_family = AF_INET, sin_addr = [10, 0, 0, 1], sin_port = [0, 1],
      sin6_addr = [], sin6_port = []\<rparr>"
     10 True
     "\<lparr>rl_secret = [], rl_gc = False, rl_table = (\<lambda>b. []), rl_table_mask = 8191,
      rl_table_num = 0\<rparr>"]
  by (simp add: example_blake2s_def cookie_checker_make_cookie_def blake2s_final_def
      blake2s_update_def blake2s_init_key_def COOKIE_COOKIE_SIZE_def COOKIE_SECRET_SIZE_def
      cookie_timer_expired_def COOKIE_SECRET_MAX_AGE_def SBT_1S_def example_nstosbt_def
      ratelimit_allow_def RATELIMIT_SIZE_MAX_val Let_def)

end
